theory Spec2Isabelle
  imports
    Complex_Main
    "HOL-Library.AList"
    "HOL-Library.Char_ord"
    "HOL-Library.List_Lexorder"
    "HOL-Library.Sublist"
begin

section \<open>Data model: cells, documents and data frames\<close>

text \<open>
  The dashboard (\<^verbatim>\<open>reddit_dashboard_enhanced.py\<close>) reads schema-less documents and
  works on them through pandas data frames. A value of a document or of a frame is a
  \<open>cell\<close>: missing (\<open>None\<close>, \<open>NaN\<close> and \<open>NaT\<close>, which pandas' \<open>fillna\<close>,
  \<open>dropna\<close> and \<open>isna\<close> all treat alike), a string, a number or a point in time.
  Other value kinds of the store (booleans, nested documents, arrays) are outside the
  model. A character of a \<open>string\<close> stands for one character of a Python \<open>str\<close>.
\<close>

datatype cell = NaN | Str string | Num real | Time int

text \<open>
  A document is a Python \<open>dict\<close>: keys with their values, looked up by key. A row of a
  data frame is kept in the same form; a column a row has no entry for reads as \<open>NaN\<close>.
\<close>

type_synonym document = "(string \<times> cell) list"

definition cell_of :: "document \<Rightarrow> string \<Rightarrow> cell" where
  "cell_of r k = (case map_of r k of None \<Rightarrow> NaN | Some v \<Rightarrow> v)"

record dataframe =
  columns :: "string list"
  rows :: "document list"

datatype error = KeyError string | AttributeError

text \<open>What is assigned to or read from a column: a whole series, or one scalar.\<close>

datatype series = Series "cell list" | Scalar cell

definition first_seen :: "'a list \<Rightarrow> 'a list" where
  "first_seen xs = rev (remdups (rev xs))"

text \<open>
  \<^verbatim>\<open>pd.DataFrame(docs)\<close>: one row per document, the columns are the keys of all
  documents in the order they are first seen.
\<close>

definition DataFrame :: "document list \<Rightarrow> dataframe" where
  "DataFrame docs = \<lparr>columns = first_seen (concat (map (map fst) docs)), rows = docs\<rparr>"

text \<open>\<^verbatim>\<open>df.empty\<close>: an axis of the frame has length zero.\<close>

definition df_empty :: "dataframe \<Rightarrow> bool" where
  "df_empty df = (rows df = [] \<or> columns df = [])"

text \<open>\<^verbatim>\<open>len(df)\<close>.\<close>

definition len :: "dataframe \<Rightarrow> nat" where
  "len df = length (rows df)"

text \<open>\<^verbatim>\<open>df[k]\<close> raises \<open>KeyError\<close> for a column the frame does not have.\<close>

definition getitem :: "dataframe \<Rightarrow> string \<Rightarrow> error + cell list" where
  "getitem df k =
     (if k \<in> set (columns df) then Inr (map (\<lambda>r. cell_of r k) (rows df))
      else Inl (KeyError k))"

text \<open>\<^verbatim>\<open>df.get(k, default)\<close> gives the default where \<^verbatim>\<open>df[k]\<close> would raise.\<close>

definition df_get :: "dataframe \<Rightarrow> string \<Rightarrow> cell \<Rightarrow> series" where
  "df_get df k dflt =
     (if k \<in> set (columns df) then Series (map (\<lambda>r. cell_of r k) (rows df))
      else Scalar dflt)"

text \<open>
  \<^verbatim>\<open>df[k] = v\<close>: a scalar fills the column, a series is aligned row by row (the series
  assigned here always come from the frame itself, so the lengths agree). A new column is
  appended to the columns.
\<close>

definition with_column :: "string \<Rightarrow> string list \<Rightarrow> string list" where
  "with_column k cs = (if k \<in> set cs then cs else cs @ [k])"

fun setitem :: "string \<Rightarrow> series \<Rightarrow> dataframe \<Rightarrow> dataframe" where
  "setitem k (Scalar v) df =
     \<lparr>columns = with_column k (columns df), rows = map (AList.update k v) (rows df)\<rparr>"
| "setitem k (Series vs) df =
     \<lparr>columns = with_column k (columns df),
      rows = map (\<lambda>(r, v). AList.update k v r) (zip (rows df) vs)\<rparr>"

section \<open>Filter engine\<close>

text \<open>
  \<^verbatim>\<open>series.isin(values)\<close>, \<^verbatim>\<open>mask & mask\<close> and boolean indexing \<^verbatim>\<open>df[mask]\<close>.
\<close>

definition isin :: "cell list \<Rightarrow> cell list \<Rightarrow> bool list" where
  "isin col vals = map (\<lambda>c. c \<in> set vals) col"

definition mask_and :: "bool list \<Rightarrow> bool list \<Rightarrow> bool list" where
  "mask_and ms ns = map (\<lambda>(m, n). m \<and> n) (zip ms ns)"

definition select_rows :: "dataframe \<Rightarrow> bool list \<Rightarrow> dataframe" where
  "select_rows df keep =
     \<lparr>columns = columns df, rows = map fst (filter snd (zip (rows df) keep))\<rparr>"

text \<open>
  Lines 362--366:
  \<^verbatim>\<open>filtered_df = df[df['subreddit'].isin(selected_subs) & df['type'].isin(selected_types)
                    & df['transformer_label'].isin(sentiments_to_show)]\<close>
\<close>

definition filtered_df ::
  "dataframe \<Rightarrow> cell list \<Rightarrow> cell list \<Rightarrow> cell list \<Rightarrow> error + dataframe" where
  "filtered_df df selected_subs selected_types sentiments_to_show =
     (case getitem df ''subreddit'' of
        Inl e \<Rightarrow> Inl e
      | Inr subs \<Rightarrow>
          (case getitem df ''type'' of
             Inl e \<Rightarrow> Inl e
           | Inr types \<Rightarrow>
               (case getitem df ''transformer_label'' of
                  Inl e \<Rightarrow> Inl e
                | Inr labels \<Rightarrow>
                    Inr (select_rows df
                          (mask_and (mask_and (isin subs selected_subs) (isin types selected_types))
                             (isin labels sentiments_to_show))))))"

definition has_columns :: "dataframe \<Rightarrow> string list \<Rightarrow> bool" where
  "has_columns df ks = list_all (\<lambda>k. k \<in> set (columns df)) ks"

text \<open>The three-row Dataset of the specification's scenario, as a loaded frame.\<close>

definition scenario_df :: dataframe where
  "scenario_df =
     \<lparr>columns = [''subreddit'', ''timestamp'', ''vader_score'', ''transformer_label'', ''type''],
      rows =
        [[(''subreddit'', Str ''a''), (''timestamp'', Time 3), (''vader_score'', Num 0.5),
          (''transformer_label'', Str ''positive''), (''type'', Str ''Post'')],
         [(''subreddit'', Str ''a''), (''timestamp'', Time 2), (''vader_score'', Num (-0.3)),
          (''transformer_label'', Str ''negative''), (''type'', Str ''Post'')],
         [(''subreddit'', Str ''b''), (''timestamp'', Time 1), (''vader_score'', Num 0),
          (''transformer_label'', Str ''neutral''), (''type'', Str ''Comment'')]]\<rparr>"

section \<open>Data loader\<close>

subsection \<open>The pandas operations the loader uses\<close>

fun is_num :: "cell \<Rightarrow> bool" where
  "is_num (Num x) = True"
| "is_num c = False"

fun is_time :: "cell \<Rightarrow> bool" where
  "is_time (Time t) = True"
| "is_time c = False"

text \<open>
  A column whose values, the missing ones apart, are all numbers has a numeric dtype, and
  one whose values are all points in time a datetime dtype. A column with a string, with
  values of several kinds, or with nothing but missing values has dtype \<open>object\<close>.
\<close>

definition only_numbers :: "cell list \<Rightarrow> bool" where
  "only_numbers col = (list_ex is_num col \<and> list_all (\<lambda>c. c = NaN \<or> is_num c) col)"

definition only_times :: "cell list \<Rightarrow> bool" where
  "only_times col = (list_ex is_time col \<and> list_all (\<lambda>c. c = NaN \<or> is_time c) col)"

text \<open>
  \<^verbatim>\<open>x.str\<close>: the string accessor exists on a series of dtype \<open>object\<close> only. On a
  numeric or datetime series pandas raises \<open>AttributeError\<close>, and so does Python on a
  scalar (the default of \<^verbatim>\<open>df.get\<close> here is a \<open>str\<close>, which has no attribute
  \<open>str\<close>). The model has one missing value: a column with nothing but missing
  values is taken to hold \<open>None\<close>, as a field that is null in every document gives;
  a column of nothing but float \<open>NaN\<close>, which has a numeric dtype, is not told apart
  from it.
\<close>

fun str_accessor :: "series \<Rightarrow> error + cell list" where
  "str_accessor (Scalar v) = Inl AttributeError"
| "str_accessor (Series col) =
     (if only_numbers col \<or> only_times col then Inl AttributeError else Inr col)"

text \<open>
  The methods of the string accessor work on the strings of the series; every other
  value gives \<open>NaN\<close>. \<^verbatim>\<open>.str[:n]\<close>:
\<close>

fun str_slice :: "nat \<Rightarrow> cell \<Rightarrow> cell" where
  "str_slice n (Str s) = Str (take n s)"
| "str_slice n c = NaN"

text \<open>
  \<^verbatim>\<open>.str.lower()\<close> is Python's \<^verbatim>\<open>str.lower\<close> on each string. On a string of
  ASCII characters it turns each letter from A to Z into the letter 32 code points on,
  which is the same code with bit 5 set, and leaves the other characters. On a string
  with a character beyond ASCII it follows the case mappings of Unicode, which are
  Python's own: they are the parameter \<open>unicode_lower\<close>.
\<close>

fun lower_char :: "char \<Rightarrow> char" where
  "lower_char (Char b0 b1 b2 b3 b4 b5 b6 b7) =
     (if CHR ''A'' \<le> Char b0 b1 b2 b3 b4 b5 b6 b7 \<and> Char b0 b1 b2 b3 b4 b5 b6 b7 \<le> CHR ''Z''
      then Char b0 b1 b2 b3 b4 True b6 b7
      else Char b0 b1 b2 b3 b4 b5 b6 b7)"

definition ascii :: "string \<Rightarrow> bool" where
  "ascii s = list_all (\<lambda>c. c \<le> CHR 0x7F) s"

definition lower :: "(string \<Rightarrow> string) \<Rightarrow> string \<Rightarrow> string" where
  "lower unicode_lower s = (if ascii s then map lower_char s else unicode_lower s)"

fun str_lower :: "(string \<Rightarrow> string) \<Rightarrow> cell \<Rightarrow> cell" where
  "str_lower unicode_lower (Str s) = Str (lower unicode_lower s)"
| "str_lower unicode_lower c = NaN"

text \<open>
  \<^verbatim>\<open>series + "..."\<close> on the result of a string method: a string is extended, a missing
  value stays missing.
\<close>

fun add_str :: "cell \<Rightarrow> string \<Rightarrow> cell" where
  "add_str (Str s) t = Str (s @ t)"
| "add_str c t = NaN"

text \<open>\<^verbatim>\<open>series.fillna(v)\<close>.\<close>

definition fillna :: "cell \<Rightarrow> cell list \<Rightarrow> cell list" where
  "fillna v col = map (\<lambda>c. if c = NaN then v else c) col"

text \<open>
  \<^verbatim>\<open>pd.to_datetime(series, errors='coerce', utc=True)\<close> and
  \<^verbatim>\<open>pd.to_numeric(series, errors='coerce')\<close>. The parsers are pandas' own; they are
  parameters here: \<open>parse col c\<close> is what the parser reads from the value \<open>c\<close> of the
  column \<open>col\<close> (pandas may infer a format from the whole column), \<open>None\<close> when it
  cannot. With \<open>errors='coerce'\<close> a value that does not parse becomes missing, and a
  missing value stays missing. A number goes through the parser as well: pandas reads
  it as a binary64 number, which need not be the number itself.
\<close>

definition coerce_time :: "(cell list \<Rightarrow> cell \<Rightarrow> int option) \<Rightarrow> cell list \<Rightarrow> cell \<Rightarrow> cell" where
  "coerce_time parse col c =
     (case c of
        NaN \<Rightarrow> NaN
      | _ \<Rightarrow> (case parse col c of None \<Rightarrow> NaN | Some t \<Rightarrow> Time t))"

definition to_datetime :: "(cell list \<Rightarrow> cell \<Rightarrow> int option) \<Rightarrow> cell list \<Rightarrow> cell list" where
  "to_datetime parse col = map (coerce_time parse col) col"

definition coerce_number :: "(cell list \<Rightarrow> cell \<Rightarrow> real option) \<Rightarrow> cell list \<Rightarrow> cell \<Rightarrow> cell" where
  "coerce_number parse col c =
     (case c of
        NaN \<Rightarrow> NaN
      | _ \<Rightarrow> (case parse col c of None \<Rightarrow> NaN | Some x \<Rightarrow> Num x))"

definition to_numeric :: "(cell list \<Rightarrow> cell \<Rightarrow> real option) \<Rightarrow> cell list \<Rightarrow> cell list" where
  "to_numeric parse col = map (coerce_number parse col) col"

text \<open>\<^verbatim>\<open>pd.concat([a, b], ignore_index=True)\<close>: the rows of both, the columns of both.\<close>

definition pd_concat :: "dataframe \<Rightarrow> dataframe \<Rightarrow> dataframe" where
  "pd_concat a b = \<lparr>columns = first_seen (columns a @ columns b), rows = rows a @ rows b\<rparr>"

text \<open>\<^verbatim>\<open>df.dropna(subset=[k])\<close> raises \<open>KeyError\<close> for a column the frame does not have.\<close>

definition dropna :: "string \<Rightarrow> dataframe \<Rightarrow> error + dataframe" where
  "dropna k df =
     (if k \<in> set (columns df)
      then Inr \<lparr>columns = columns df, rows = filter (\<lambda>r. cell_of r k \<noteq> NaN) (rows df)\<rparr>
      else Inl (KeyError k))"

subsection \<open>The function \<open>load_data\<close>\<close>

text \<open>
  Lines 126--131. \<open>posts\<close> is the result of the query on the posts collection.
\<close>

definition df_posts :: "document list \<Rightarrow> dataframe" where
  "df_posts posts =
     (let df = DataFrame posts in
      if df_empty df then df
      else
        let df = setitem ''type'' (Scalar (Str ''Post'')) df;
            df = setitem ''link'' (df_get df ''url'' (Str [])) df;
            df = setitem ''body_preview'' (df_get df ''selftext'' (Str [])) df
        in df)"

text \<open>
  Lines 134--140. The title of a comment is
  \<^verbatim>\<open>df_comments.get('body', '').str[:100] + "..."\<close>.
\<close>

definition df_comments :: "document list \<Rightarrow> error + dataframe" where
  "df_comments comments =
     (let df = DataFrame comments in
      if df_empty df then Inr df
      else
        let df = setitem ''type'' (Scalar (Str ''Comment'')) df in
        (case str_accessor (df_get df ''body'' (Str [])) of
           Inl e \<Rightarrow> Inl e
         | Inr body \<Rightarrow>
             let df = setitem ''title''
                        (Series (map (\<lambda>c. add_str (str_slice 100 c) ''...'') body)) df;
                 df = setitem ''body_preview'' (df_get df ''body'' (Str [])) df;
                 df = setitem ''link'' (df_get df ''url'' (Str [])) df
             in Inr df))"

text \<open>Lines 147--160, the type conversions on the concatenated frame.\<close>

definition type_conversions ::
  "(cell list \<Rightarrow> cell \<Rightarrow> int option) \<Rightarrow> (cell list \<Rightarrow> cell \<Rightarrow> real option) \<Rightarrow> (string \<Rightarrow> string) \<Rightarrow>
   dataframe \<Rightarrow> error + dataframe" where
  "type_conversions parse_time parse_number unicode_lower df0 =
     (let df1 = (if ''timestamp'' \<in> set (columns df0)
                 then setitem ''timestamp''
                        (Series (to_datetime parse_time
                                   (map (\<lambda>r. cell_of r ''timestamp'') (rows df0)))) df0
                 else df0)
      in
      case getitem df1 ''vader_score'' of
        Inl e \<Rightarrow> Inl e
      | Inr scores \<Rightarrow>
          let df2 = setitem ''vader_score''
                      (Series (fillna (Num 0) (to_numeric parse_number scores))) df1
          in
          (case getitem df2 ''transformer_label'' of
             Inl e \<Rightarrow> Inl e
           | Inr labels \<Rightarrow>
               (case str_accessor (Series (fillna (Str ''neutral'') labels)) of
                  Inl e \<Rightarrow> Inl e
                | Inr filled \<Rightarrow>
                    let df3 = setitem ''transformer_label'' (Series (map (str_lower unicode_lower) filled)) df2
                    in
                    (case getitem df3 ''subreddit'' of
                       Inl e \<Rightarrow> Inl e
                     | Inr subs \<Rightarrow>
                         let df4 = setitem ''subreddit''
                                     (Series (fillna (Str ''unknown'') subs)) df3
                         in dropna ''timestamp'' df4))))"

text \<open>
  Lines 120--165. \<open>posts\<close> and \<open>comments\<close> are the results of the two queries, \<open>now\<close>
  is the formatted wall-clock time \<^verbatim>\<open>datetime.now().strftime(...)\<close>. The result is the
  pair the function returns, with the load time \<open>None\<close> or a string.
\<close>

definition load_data ::
  "(cell list \<Rightarrow> cell \<Rightarrow> int option) \<Rightarrow> (cell list \<Rightarrow> cell \<Rightarrow> real option) \<Rightarrow> (string \<Rightarrow> string) \<Rightarrow> string \<Rightarrow>
   document list \<Rightarrow> document list \<Rightarrow> error + (dataframe \<times> string option)" where
  "load_data parse_time parse_number unicode_lower now posts comments =
     (let dfp = df_posts posts in
      case df_comments comments of
        Inl e \<Rightarrow> Inl e
      | Inr dfc \<Rightarrow>
          if df_empty dfp \<and> df_empty dfc then Inr (DataFrame [], None)
          else
            (case type_conversions parse_time parse_number unicode_lower (pd_concat dfp dfc) of
               Inl e \<Rightarrow> Inl e
             | Inr df \<Rightarrow> Inr (df, Some now)))"

text \<open>
  The conversions of lines 147--160 as they act on one row, given the timestamp and
  score columns of the frame; used to describe \<open>type_conversions\<close> row by row.
\<close>

definition convert_row ::
  "(cell list \<Rightarrow> cell \<Rightarrow> int option) \<Rightarrow> (cell list \<Rightarrow> cell \<Rightarrow> real option) \<Rightarrow> (string \<Rightarrow> string) \<Rightarrow>
   cell list \<Rightarrow> cell list \<Rightarrow> document \<Rightarrow> document" where
  "convert_row pt pn ul tcol vcol r =
     AList.update ''subreddit''
       (if cell_of r ''subreddit'' = NaN then Str ''unknown'' else cell_of r ''subreddit'')
       (AList.update ''transformer_label''
          (str_lower ul (if cell_of r ''transformer_label'' = NaN then Str ''neutral''
                      else cell_of r ''transformer_label''))
          (AList.update ''vader_score''
             (if coerce_number pn vcol (cell_of r ''vader_score'') = NaN then Num 0
              else coerce_number pn vcol (cell_of r ''vader_score''))
             (AList.update ''timestamp'' (coerce_time pt tcol (cell_of r ''timestamp'')) r)))"

section \<open>Aggregations\<close>

subsection \<open>The pandas operations the aggregations use\<close>

text \<open>
  \<^verbatim>\<open>series.nunique()\<close> counts the distinct values that are not missing.
\<close>

definition nunique :: "cell list \<Rightarrow> nat" where
  "nunique col = length (remdups (filter (\<lambda>c. c \<noteq> NaN) col))"

text \<open>
  \<^verbatim>\<open>series.value_counts()\<close>: each value that is not missing with the number of
  its occurrences, the most frequent first. pandas counts the values in the order of
  their first occurrence (\<open>counted\<close>) and then sorts by the counts in descending
  order with the sort of its array library. Which of two values with the same count
  comes first is up to that sort, which sees the counts and not the values. It is the
  parameter \<open>argsort\<close>: for the list of the counts it gives the positions in the
  order of the result. A position outside the list, which a sort never gives, is
  skipped.
\<close>

definition counted :: "cell list \<Rightarrow> (cell \<times> nat) list" where
  "counted col =
     (let vals = filter (\<lambda>c. c \<noteq> NaN) col
      in map (\<lambda>v. (v, count_list vals v)) (first_seen vals))"

definition value_counts :: "(nat list \<Rightarrow> nat list) \<Rightarrow> cell list \<Rightarrow> (cell \<times> nat) list" where
  "value_counts argsort col =
     (let cs = counted col
      in map (\<lambda>i. cs ! i) (filter (\<lambda>i. i < length cs) (argsort (map snd cs))))"

text \<open>
  What a sort in descending order gives for a list of counts: every position once, with
  counts that do not increase.
\<close>

definition sorts_descending :: "nat list \<Rightarrow> nat list \<Rightarrow> bool" where
  "sorts_descending counts perm =
     (length perm = length counts \<and> distinct perm \<and> list_all (\<lambda>i. i < length counts) perm \<and>
      sorted_wrt (\<lambda>i j. counts ! j \<le> counts ! i) perm)"

text \<open>\<^verbatim>\<open>counts.get(k, d)\<close> on the series of counts.\<close>

definition counts_get :: "(cell \<times> nat) list \<Rightarrow> cell \<Rightarrow> nat \<Rightarrow> nat" where
  "counts_get counts k d = (case map_of counts k of None \<Rightarrow> d | Some n \<Rightarrow> n)"

text \<open>
  \<^verbatim>\<open>series.mean()\<close> over the numbers of the series; missing for a series without
  numbers.
\<close>

fun numbers_of :: "cell list \<Rightarrow> real list" where
  "numbers_of [] = []"
| "numbers_of (Num x # cs) = x # numbers_of cs"
| "numbers_of (c # cs) = numbers_of cs"

definition mean :: "cell list \<Rightarrow> cell" where
  "mean col =
     (let xs = numbers_of col
      in if xs = [] then NaN else Num (sum_list xs / real (length xs)))"

text \<open>
  \<^verbatim>\<open>series.mode()\<close>: the most frequent values, in ascending order. It is used on the
  label column, whose values are strings or missing after \<open>load_data\<close>; the model takes
  the strings of the series.
\<close>

fun strings_of :: "cell list \<Rightarrow> string list" where
  "strings_of [] = []"
| "strings_of (Str s # cs) = s # strings_of cs"
| "strings_of (c # cs) = strings_of cs"

definition mode :: "cell list \<Rightarrow> string list" where
  "mode col =
     (let vals = strings_of col;
          top = fold max (map (count_list vals) vals) 0
      in sort (remdups (filter (\<lambda>v. count_list vals v = top) vals)))"

text \<open>
  \<^verbatim>\<open>s.title()\<close>: the first letter of each run of letters in upper case, the other
  letters in lower case (for the letters a to z and A to Z).
\<close>

fun upper_char :: "char \<Rightarrow> char" where
  "upper_char (Char b0 b1 b2 b3 b4 b5 b6 b7) =
     (if CHR ''a'' \<le> Char b0 b1 b2 b3 b4 b5 b6 b7 \<and> Char b0 b1 b2 b3 b4 b5 b6 b7 \<le> CHR ''z''
      then Char b0 b1 b2 b3 b4 False b6 b7
      else Char b0 b1 b2 b3 b4 b5 b6 b7)"

definition is_letter :: "char \<Rightarrow> bool" where
  "is_letter c = ((CHR ''a'' \<le> c \<and> c \<le> CHR ''z'') \<or> (CHR ''A'' \<le> c \<and> c \<le> CHR ''Z''))"

fun title_from :: "bool \<Rightarrow> string \<Rightarrow> string" where
  "title_from previous_is_cased [] = []"
| "title_from previous_is_cased (c # cs) =
     (if is_letter c
      then (if previous_is_cased then lower_char c else upper_char c) # title_from True cs
      else c # title_from False cs)"

definition title :: "string \<Rightarrow> string" where
  "title s = title_from False s"

subsection \<open>The figures of the dashboard\<close>

text \<open>Lines 242--245.\<close>

definition total_docs :: "dataframe \<Rightarrow> nat" where
  "total_docs df = len df"

definition avg_vader :: "dataframe \<Rightarrow> error + cell" where
  "avg_vader df =
     (case getitem df ''vader_score'' of Inl e \<Rightarrow> Inl e | Inr col \<Rightarrow> Inr (mean col))"

definition active_subs :: "dataframe \<Rightarrow> error + nat" where
  "active_subs df =
     (case getitem df ''subreddit'' of Inl e \<Rightarrow> Inl e | Inr col \<Rightarrow> Inr (nunique col))"

text \<open>
  \<^verbatim>\<open>df['transformer_label'].mode()[0].title()\<close>: the index \<open>0\<close> of a series without
  entries raises \<open>KeyError\<close>.
\<close>

definition dominant_sent :: "dataframe \<Rightarrow> error + string" where
  "dominant_sent df =
     (case getitem df ''transformer_label'' of
        Inl e \<Rightarrow> Inl e
      | Inr col \<Rightarrow>
          (case mode col of
             [] \<Rightarrow> Inl (KeyError ''0'')
           | m # ms \<Rightarrow> Inr (title m)))"

text \<open>
  Lines 222--245: the script stops at an empty frame (\<^verbatim>\<open>if df.empty: ... st.stop()\<close>)
  and computes the four figures otherwise. \<open>None\<close> is the stopped run.
\<close>

definition executive_summary :: "dataframe \<Rightarrow> error + (nat \<times> cell \<times> nat \<times> string) option" where
  "executive_summary df =
     (if df_empty df then Inr None
      else
        (case avg_vader df of
           Inl e \<Rightarrow> Inl e
         | Inr a \<Rightarrow>
             (case active_subs df of
                Inl e \<Rightarrow> Inl e
              | Inr s \<Rightarrow>
                  (case dominant_sent df of
                     Inl e \<Rightarrow> Inl e
                   | Inr d \<Rightarrow> Inr (Some (total_docs df, a, s, d))))))"

text \<open>
  Lines 257--269: the percentages of the three bars, \<open>None\<close> when the function returns
  at an empty frame. A percentage is a binary64 number: the count divided by the total,
  and the quotient multiplied by 100, each of the two operations rounded. \<open>fl x\<close> is
  the binary64 number that the real number \<open>x\<close> is rounded to; the rounding is that of
  the machine arithmetic and a parameter here.
\<close>

definition display_sentiment_bars ::
  "(real \<Rightarrow> real) \<Rightarrow> (nat list \<Rightarrow> nat list) \<Rightarrow> dataframe \<Rightarrow>
   error + (real \<times> real \<times> real) option" where
  "display_sentiment_bars fl argsort df =
     (if df_empty df then Inr None
      else
        (case getitem df ''transformer_label'' of
           Inl e \<Rightarrow> Inl e
         | Inr col \<Rightarrow>
             let total = real (len df);
                 counts = value_counts argsort col;
                 pos_pct = fl (fl (real (counts_get counts (Str ''positive'') 0) / total) * 100);
                 neu_pct = fl (fl (real (counts_get counts (Str ''neutral'') 0) / total) * 100);
                 neg_pct = fl (fl (real (counts_get counts (Str ''negative'') 0) / total) * 100)
             in Inr (Some (pos_pct, neu_pct, neg_pct))))"

text \<open>Line 314: \<^verbatim>\<open>df['subreddit'].value_counts().head(7)\<close>.\<close>

definition sub_counts :: "(nat list \<Rightarrow> nat list) \<Rightarrow> dataframe \<Rightarrow> error + (cell \<times> nat) list" where
  "sub_counts argsort df =
     (case getitem df ''subreddit'' of
        Inl e \<Rightarrow> Inl e
      | Inr col \<Rightarrow> Inr (take 7 (value_counts argsort col)))"

text \<open>
  Lines 369--373: \<^verbatim>\<open>filtered_df.groupby(['subreddit', 'transformer_label']).size()\<close>,
  computed for a frame that is not empty: the number of rows of each pair of a subreddit
  and a label that occurs, rows with a missing key left out. The pairs are listed in the
  order of their first occurrence; the order in which pandas lists the groups is not
  modelled. \<open>None\<close> when the block is skipped.
\<close>

definition group_sizes :: "(cell \<times> cell) list \<Rightarrow> ((cell \<times> cell) \<times> nat) list" where
  "group_sizes keys =
     (let obs = filter (\<lambda>(a, b). a \<noteq> NaN \<and> b \<noteq> NaN) keys
      in map (\<lambda>k. (k, count_list obs k)) (first_seen obs))"

definition grouped_sent :: "dataframe \<Rightarrow> error + ((cell \<times> cell) \<times> nat) list option" where
  "grouped_sent fdf =
     (if df_empty fdf then Inr None
      else
        (case getitem fdf ''subreddit'' of
           Inl e \<Rightarrow> Inl e
         | Inr subs \<Rightarrow>
             (case getitem fdf ''transformer_label'' of
                Inl e \<Rightarrow> Inl e
              | Inr labels \<Rightarrow> Inr (Some (group_sizes (zip subs labels))))))"

text \<open>
  Frames for the aggregations: an unknown label, and two subreddits of equal count in
  either order. A sort of the counts that keeps the order of equal counts.
\<close>

definition mixed_label_df :: dataframe where
  "mixed_label_df =
     \<lparr>columns = [''subreddit'', ''transformer_label''],
      rows = [[(''subreddit'', Str ''a''), (''transformer_label'', Str ''mixed'')]]\<rparr>"

definition tied_df :: dataframe where
  "tied_df =
     \<lparr>columns = [''subreddit'', ''transformer_label''],
      rows = [[(''subreddit'', Str ''b''), (''transformer_label'', Str ''positive'')],
              [(''subreddit'', Str ''a''), (''transformer_label'', Str ''negative'')]]\<rparr>"

definition swapped_df :: dataframe where
  "swapped_df =
     \<lparr>columns = [''subreddit'', ''transformer_label''],
      rows = [[(''subreddit'', Str ''a''), (''transformer_label'', Str ''negative'')],
              [(''subreddit'', Str ''b''), (''transformer_label'', Str ''positive'')]]\<rparr>"

definition stable_argsort :: "nat list \<Rightarrow> nat list" where
  "stable_argsort counts = sort_key (\<lambda>i. - int (counts ! i)) [0..<length counts]"

text \<open>
  The rounding of binary64 arithmetic: to the nearest number of 53 significant bits, and
  of two nearest ones to the one with an even last bit. The exponent is not bounded
  here; a percentage is far from the largest and the smallest binary64 numbers.
\<close>

definition round_even :: "real \<Rightarrow> int" where
  "round_even y =
     (let f = \<lfloor>y\<rfloor>; r = y - of_int f
      in if r < 1 / 2 then f else if 1 / 2 < r then f + 1 else if even f then f else f + 1)"

definition binary64 :: "real \<Rightarrow> real" where
  "binary64 x =
     (if x = 0 then 0
      else let ulp = 2 powr of_int (\<lfloor>log 2 \<bar>x\<bar>\<rfloor> - 52)
           in of_int (round_even (x / ulp)) * ulp)"

section \<open>The cache of \<open>load_data\<close>\<close>

text \<open>
  Modelled from the spec: the cache that the decorator \<^verbatim>\<open>@st.cache_data(ttl=300)\<close> puts
  around \<open>load_data\<close> (line 119) and that \<^verbatim>\<open>st.cache_data.clear()\<close> empties (line 179).
  Streamlit's own code is not part of the repository. The model follows the caching policy
  of the specification: a single slot with the result of the last successful load and
  the time of that load; a call within the freshness window of that load returns the
  value of the slot and queries nothing; a call after the window, or after the
  invalidation, runs \<open>load_data\<close> again. The window is the \<open>ttl\<close> of the source, in
  seconds. \<open>queries\<close> counts the queries sent to the store; a run of \<open>load_data\<close>
  sends its two.
\<close>

definition ttl :: nat where
  "ttl = 300"

record cache =
  slot :: "((dataframe \<times> string option) \<times> nat) option"
  queries :: nat

definition fresh :: "nat \<Rightarrow> cache \<Rightarrow> bool" where
  "fresh now c = (case slot c of None \<Rightarrow> False | Some (v, loaded) \<Rightarrow> now < loaded + ttl)"

text \<open>
  A run of the function body at the time \<open>now\<close>, on what the two queries return then;
  \<open>clock\<close> formats the time. A result is stored, an exception is not.
\<close>

definition run_load_data ::
  "(cell list \<Rightarrow> cell \<Rightarrow> int option) \<Rightarrow> (cell list \<Rightarrow> cell \<Rightarrow> real option) \<Rightarrow> (string \<Rightarrow> string) \<Rightarrow> (nat \<Rightarrow> string) \<Rightarrow>
   nat \<Rightarrow> document list \<Rightarrow> document list \<Rightarrow> cache \<Rightarrow>
   (error + (dataframe \<times> string option)) \<times> cache" where
  "run_load_data parse_time parse_number unicode_lower clock now posts comments c =
     (case load_data parse_time parse_number unicode_lower (clock now) posts comments of
        Inl e \<Rightarrow> (Inl e, \<lparr>slot = None, queries = queries c + 2\<rparr>)
      | Inr v \<Rightarrow> (Inr v, \<lparr>slot = Some (v, now), queries = queries c + 2\<rparr>))"

definition cached_load_data ::
  "(cell list \<Rightarrow> cell \<Rightarrow> int option) \<Rightarrow> (cell list \<Rightarrow> cell \<Rightarrow> real option) \<Rightarrow> (string \<Rightarrow> string) \<Rightarrow> (nat \<Rightarrow> string) \<Rightarrow>
   nat \<Rightarrow> document list \<Rightarrow> document list \<Rightarrow> cache \<Rightarrow>
   (error + (dataframe \<times> string option)) \<times> cache" where
  "cached_load_data parse_time parse_number unicode_lower clock now posts comments c =
     (case slot c of
        None \<Rightarrow> run_load_data parse_time parse_number unicode_lower clock now posts comments c
      | Some (v, loaded) \<Rightarrow>
          if now < loaded + ttl then (Inr v, c)
          else run_load_data parse_time parse_number unicode_lower clock now posts comments c)"

text \<open>\<^verbatim>\<open>st.cache_data.clear()\<close>, the invalidation of the refresh button.\<close>

definition cache_clear :: "cache \<Rightarrow> cache" where
  "cache_clear c = c\<lparr>slot := None\<rparr>"

section \<open>Example inputs\<close>

text \<open>
  Documents as the two collections may hold them, and parsers for them: a post with an
  empty subreddit and a score that is no number, a post whose timestamp does not parse,
  a post without subreddit whose label is a number, and a comment with nothing but a
  body and a timestamp.
\<close>

definition example_posts :: "document list" where
  "example_posts =
     [[(''subreddit'', Str []), (''timestamp'', Str ''2024-01-01''), (''vader_score'', Str ''n/a''),
       (''transformer_label'', Str ''Positive'')],
      [(''subreddit'', Str ''b''), (''timestamp'', Str ''bad''), (''vader_score'', Num 0.5),
       (''transformer_label'', Str ''NEGATIVE'')],
      [(''timestamp'', Str ''2024-01-03''), (''vader_score'', Num 0.5), (''transformer_label'', Num 1)]]"

definition example_comments :: "document list" where
  "example_comments = [[(''body'', Str ''hello''), (''timestamp'', Str ''2024-01-02'')]]"

definition example_parse_time :: "cell list \<Rightarrow> cell \<Rightarrow> int option" where
  "example_parse_time col c = (if c = Str ''bad'' then None else Some 0)"

definition example_parse_number :: "cell list \<Rightarrow> cell \<Rightarrow> real option" where
  "example_parse_number col c = (case c of Num x \<Rightarrow> Some x | _ \<Rightarrow> None)"

definition example_unicode_lower :: "string \<Rightarrow> string" where
  "example_unicode_lower s = s"

definition posts_without_scores :: "document list" where
  "posts_without_scores =
     [[(''subreddit'', Str ''a''), (''timestamp'', Str ''2024-01-01''),
       (''transformer_label'', Str ''positive'')]]"

definition posts_without_labels :: "document list" where
  "posts_without_labels =
     [[(''subreddit'', Str ''a''), (''timestamp'', Str ''2024-01-01''), (''vader_score'', Num 0.5)]]"

text \<open>A clock and a cache before the first load.\<close>

definition example_clock :: "nat \<Rightarrow> string" where
  "example_clock t = ''now''"

definition empty_cache :: cache where
  "empty_cache = \<lparr>slot = None, queries = 0\<rparr>"

section \<open>Properties of the filter engine\<close>

lemma select_rows_map:
  "select_rows df (map p (rows df)) = \<lparr>columns = columns df, rows = filter p (rows df)\<rparr>"
proof -
  have "map fst (filter snd (zip xs (map p xs))) = filter p xs" for xs :: "document list"
    by (induction xs) auto
  then show ?thesis by (simp add: select_rows_def)
qed

lemma masks_rowwise:
  "mask_and (mask_and (isin (map (\<lambda>r. cell_of r ''subreddit'') rs) subs)
                      (isin (map (\<lambda>r. cell_of r ''type'') rs) types))
            (isin (map (\<lambda>r. cell_of r ''transformer_label'') rs) sents)
   = map (\<lambda>r. cell_of r ''subreddit'' \<in> set subs \<and> cell_of r ''type'' \<in> set types \<and>
               cell_of r ''transformer_label'' \<in> set sents) rs"
  by (induction rs) (auto simp: mask_and_def isin_def)

lemma filtered_df_rows:
  assumes "has_columns df [''subreddit'', ''type'', ''transformer_label'']"
  shows "filtered_df df subs types sents =
           Inr \<lparr>columns = columns df,
                rows = filter (\<lambda>r. cell_of r ''subreddit'' \<in> set subs \<and>
                                    cell_of r ''type'' \<in> set types \<and>
                                    cell_of r ''transformer_label'' \<in> set sents) (rows df)\<rparr>"
  using assms
  by (simp add: filtered_df_def getitem_def has_columns_def masks_rowwise select_rows_map)

lemma count_list_filter:
  "count_list (filter p xs) x = (if p x then count_list xs x else 0)"
  by (induction xs) auto

text \<open>
  Claim C1. On a Dataset that has the three filter columns (every Dataset that
  \<open>load_data\<close> returns with a load time has them), \<open>filtered_df\<close> returns
  exactly the rows whose subreddit, type and label are each in the selected values: the
  result is the input with the other rows left out, so the retained rows are unchanged,
  keep their relative order and their multiplicity, and the columns are the input's. The
  function is pure: the input frame is a value and is not changed.
\<close>

theorem filtered_df_retention:
  fixes df :: dataframe and subs types sents :: "cell list"
  defines "keep \<equiv> \<lambda>r. cell_of r ''subreddit'' \<in> set subs \<and> cell_of r ''type'' \<in> set types \<and>
                         cell_of r ''transformer_label'' \<in> set sents"
  assumes "has_columns df [''subreddit'', ''type'', ''transformer_label'']"
  shows "\<exists>out. filtered_df df subs types sents = Inr out
           \<and> columns out = columns df
           \<and> rows out = filter keep (rows df)
           \<and> subseq (rows out) (rows df)
           \<and> (\<forall>r. r \<in> set (rows out) \<longleftrightarrow> r \<in> set (rows df) \<and> keep r)
           \<and> (\<forall>r. count_list (rows out) r = (if keep r then count_list (rows df) r else 0))"
proof -
  let ?out = "\<lparr>columns = columns df, rows = filter keep (rows df)\<rparr>"
  have "filtered_df df subs types sents = Inr ?out"
    unfolding keep_def using assms(2) by (rule filtered_df_rows)
  moreover have "subseq (rows ?out) (rows df)"
    by simp
  moreover have "\<forall>r. r \<in> set (rows ?out) \<longleftrightarrow> r \<in> set (rows df) \<and> keep r"
    by simp
  moreover have "\<forall>r. count_list (rows ?out) r = (if keep r then count_list (rows df) r else 0)"
    by (simp add: count_list_filter)
  ultimately show ?thesis
    by (intro exI [of _ ?out]) simp
qed

theorem filtered_df_retention_witness:
  "has_columns scenario_df [''subreddit'', ''type'', ''transformer_label'']
   \<and> filtered_df scenario_df [Str ''a''] [Str ''Post'', Str ''Comment''] [Str ''negative'', Str ''neutral'']
       = Inr \<lparr>columns = columns scenario_df, rows = [rows scenario_df ! 1]\<rparr>"
proof -
  have cols: "has_columns scenario_df [''subreddit'', ''type'', ''transformer_label'']"
    by (simp add: has_columns_def scenario_df_def)
  from filtered_df_retention [OF cols, of "[Str ''a'']" "[Str ''Post'', Str ''Comment'']"
      "[Str ''negative'', Str ''neutral'']"]
  obtain out where
    "filtered_df scenario_df [Str ''a''] [Str ''Post'', Str ''Comment''] [Str ''negative'', Str ''neutral'']
       = Inr out"
    "columns out = columns scenario_df"
    "rows out = filter (\<lambda>r. cell_of r ''subreddit'' \<in> set [Str ''a''] \<and>
                             cell_of r ''type'' \<in> set [Str ''Post'', Str ''Comment''] \<and>
                             cell_of r ''transformer_label'' \<in> set [Str ''negative'', Str ''neutral''])
                   (rows scenario_df)"
    by blast
  moreover have "filter (\<lambda>r. cell_of r ''subreddit'' \<in> set [Str ''a''] \<and>
                             cell_of r ''type'' \<in> set [Str ''Post'', Str ''Comment''] \<and>
                             cell_of r ''transformer_label'' \<in> set [Str ''negative'', Str ''neutral''])
                   (rows scenario_df) = [rows scenario_df ! 1]"
    by (simp add: scenario_df_def cell_of_def)
  ultimately have "out = \<lparr>columns = columns scenario_df, rows = [rows scenario_df ! 1]\<rparr>"
    by simp
  with cols \<open>filtered_df scenario_df _ _ _ = Inr out\<close> show ?thesis
    by simp
qed

text \<open>
  Claim C7. On a Dataset that has the three filter columns: when the selections contain
  every subreddit, type and label occurring in it, \<open>filtered_df\<close> returns the Dataset
  itself; and with no subreddit selected it returns a Dataset with no rows, whatever the
  other two selections are.
\<close>

theorem filtered_df_identity_annihilation:
  assumes "has_columns df [''subreddit'', ''type'', ''transformer_label'']"
  shows "((\<forall>r \<in> set (rows df). cell_of r ''subreddit'' \<in> set subs \<and> cell_of r ''type'' \<in> set types \<and>
                                 cell_of r ''transformer_label'' \<in> set sents)
            \<longrightarrow> filtered_df df subs types sents = Inr df)
       \<and> (\<exists>out. filtered_df df [] types sents = Inr out \<and> rows out = [] \<and> df_empty out)"
proof (intro conjI impI)
  assume "\<forall>r \<in> set (rows df). cell_of r ''subreddit'' \<in> set subs \<and> cell_of r ''type'' \<in> set types \<and>
                               cell_of r ''transformer_label'' \<in> set sents"
  then have "filter (\<lambda>r. cell_of r ''subreddit'' \<in> set subs \<and> cell_of r ''type'' \<in> set types \<and>
                          cell_of r ''transformer_label'' \<in> set sents) (rows df) = rows df"
    by (simp add: filter_id_conv)
  with filtered_df_rows [OF assms, of subs types sents]
  show "filtered_df df subs types sents = Inr df"
    by simp
next
  from filtered_df_rows [OF assms, of "[]" types sents]
  show "\<exists>out. filtered_df df [] types sents = Inr out \<and> rows out = [] \<and> df_empty out"
    by (simp add: df_empty_def)
qed

theorem filtered_df_identity_annihilation_witness:
  "has_columns scenario_df [''subreddit'', ''type'', ''transformer_label'']
   \<and> filtered_df scenario_df [Str ''a'', Str ''b''] [Str ''Post'', Str ''Comment'']
        [Str ''positive'', Str ''neutral'', Str ''negative''] = Inr scenario_df
   \<and> (\<exists>out. filtered_df scenario_df [] [Str ''Post'', Str ''Comment'']
        [Str ''positive'', Str ''neutral'', Str ''negative''] = Inr out \<and> rows out = [] \<and> df_empty out)"
proof -
  have cols: "has_columns scenario_df [''subreddit'', ''type'', ''transformer_label'']"
    by (simp add: has_columns_def scenario_df_def)
  have occ: "\<forall>r \<in> set (rows scenario_df).
               cell_of r ''subreddit'' \<in> set [Str ''a'', Str ''b''] \<and>
               cell_of r ''type'' \<in> set [Str ''Post'', Str ''Comment''] \<and>
               cell_of r ''transformer_label'' \<in> set [Str ''positive'', Str ''neutral'', Str ''negative'']"
    by (simp add: scenario_df_def cell_of_def)
  from filtered_df_identity_annihilation [OF cols, of "[Str ''a'', Str ''b'']"
      "[Str ''Post'', Str ''Comment'']" "[Str ''positive'', Str ''neutral'', Str ''negative'']"]
    cols occ
  show ?thesis by blast
qed

section \<open>Properties of the data loader\<close>

lemma cell_of_update:
  "cell_of (AList.update k v r) k' = (if k' = k then v else cell_of r k')"
  by (simp add: cell_of_def update_conv')

lemma set_with_column: "set (with_column k cs) = insert k (set cs)"
  by (auto simp: with_column_def)

lemma with_column_present: "k \<in> set cs \<Longrightarrow> with_column k cs = cs"
  by (simp add: with_column_def)

lemma type_conversions_columns:
  assumes "type_conversions pt pn ul df0 = Inr df"
  shows "has_columns df0 [''timestamp'', ''vader_score'', ''transformer_label'', ''subreddit'']"
proof -
  have ts: "''timestamp'' \<in> set (columns df0)"
    using assms
    by (auto simp: type_conversions_def Let_def getitem_def dropna_def set_with_column
        split: if_splits sum.splits)
  have vs: "''vader_score'' \<in> set (columns df0)"
    using assms ts
    by (auto simp: type_conversions_def Let_def getitem_def set_with_column
        split: if_splits sum.splits)
  have ls: "''transformer_label'' \<in> set (columns df0)"
    using assms ts vs
    by (auto simp: type_conversions_def Let_def getitem_def set_with_column
        split: if_splits sum.splits)
  have ss: "''subreddit'' \<in> set (columns df0)"
    using assms ts vs ls
    by (auto simp: type_conversions_def Let_def getitem_def set_with_column
        split: if_splits sum.splits)
  from ts vs ls ss show ?thesis by (simp add: has_columns_def)
qed

lemma zip_map_both:
  "map (\<lambda>(r, v). g r v) (zip (map u xs) (map h xs)) = map (\<lambda>r. g (u r) (h r)) xs"
  by (induction xs) auto

lemma setitem_Series_map2:
  "setitem k (Series (map h xs)) \<lparr>columns = cs, rows = map u xs\<rparr> =
     \<lparr>columns = with_column k cs, rows = map (\<lambda>r. AList.update k (h r) (u r)) xs\<rparr>"
  by (simp add: zip_map_both)

lemma getitem_map:
  "getitem \<lparr>columns = cs, rows = map u xs\<rparr> k =
     (if k \<in> set cs then Inr (map (\<lambda>r. cell_of (u r) k) xs) else Inl (KeyError k))"
  by (simp add: getitem_def comp_def)

lemma type_conversions_rowwise:
  assumes cols: "has_columns \<lparr>columns = cs, rows = xs\<rparr>
                   [''timestamp'', ''vader_score'', ''transformer_label'', ''subreddit'']"
  shows "type_conversions pt pn ul \<lparr>columns = cs, rows = xs\<rparr> =
     (case str_accessor (Series (fillna (Str ''neutral'')
                                   (map (\<lambda>r. cell_of r ''transformer_label'') xs))) of
        Inl e \<Rightarrow> Inl e
      | Inr filled \<Rightarrow>
          Inr \<lparr>columns = cs,
               rows = filter (\<lambda>r. cell_of r ''timestamp'' \<noteq> NaN)
                       (map (convert_row pt pn ul (map (\<lambda>r. cell_of r ''timestamp'') xs)
                               (map (\<lambda>r. cell_of r ''vader_score'') xs)) xs)\<rparr>)"
proof -
  from cols have ts: "''timestamp'' \<in> set cs" and vs: "''vader_score'' \<in> set cs"
    and ls: "''transformer_label'' \<in> set cs" and ss: "''subreddit'' \<in> set cs"
    by (simp_all add: has_columns_def)
  define T where "T = map (\<lambda>r. cell_of r ''timestamp'') xs"
  define V where "V = map (\<lambda>r. cell_of r ''vader_score'') xs"
  define L where "L = map (\<lambda>r. cell_of r ''transformer_label'') xs"
  define S where "S = map (\<lambda>r. cell_of r ''subreddit'') xs"
  define h1 where "h1 = (\<lambda>r. coerce_time pt T (cell_of r ''timestamp''))"
  define h2 where "h2 = (\<lambda>r. if coerce_number pn V (cell_of r ''vader_score'') = NaN then Num 0
              else coerce_number pn V (cell_of r ''vader_score''))"
  define h3 where "h3 = (\<lambda>r. str_lower ul (if cell_of r ''transformer_label'' = NaN then Str ''neutral''
                      else cell_of r ''transformer_label''))"
  define h4 where "h4 = (\<lambda>r. if cell_of r ''subreddit'' = NaN then Str ''unknown''
                      else cell_of r ''subreddit'')"
  define u1 where "u1 = (\<lambda>r. AList.update ''timestamp'' (h1 r) r)"
  define u2 where "u2 = (\<lambda>r. AList.update ''vader_score'' (h2 r) (u1 r))"
  define u3 where "u3 = (\<lambda>r. AList.update ''transformer_label'' (h3 r) (u2 r))"
  define u4 where "u4 = (\<lambda>r. AList.update ''subreddit'' (h4 r) (u3 r))"
  let ?df0 = "\<lparr>columns = cs, rows = xs\<rparr>"
  have s1: "to_datetime pt T = map h1 xs"
    by (simp add: to_datetime_def T_def h1_def)
  have s2: "fillna (Num 0) (to_numeric pn V) = map h2 xs"
    by (simp add: to_numeric_def fillna_def V_def h2_def)
  have s3: "map (str_lower ul) (fillna (Str ''neutral'') L) = map h3 xs"
    by (simp add: fillna_def L_def h3_def)
  have s4: "fillna (Str ''unknown'') S = map h4 xs"
    by (simp add: fillna_def S_def h4_def)
  have d1: "setitem ''timestamp'' (Series (to_datetime pt T)) ?df0 = \<lparr>columns = cs, rows = map u1 xs\<rparr>"
    unfolding s1 u1_def using ts setitem_Series_map2 [of "''timestamp''" h1 xs cs "\<lambda>r. r"]
    by (simp add: with_column_present del: setitem.simps)
  have g1: "getitem \<lparr>columns = cs, rows = map u1 xs\<rparr> ''vader_score'' = Inr V"
    using vs by (simp add: getitem_map u1_def cell_of_update V_def)
  have d2: "setitem ''vader_score'' (Series (fillna (Num 0) (to_numeric pn V)))
              \<lparr>columns = cs, rows = map u1 xs\<rparr> = \<lparr>columns = cs, rows = map u2 xs\<rparr>"
    unfolding s2 u2_def using vs setitem_Series_map2 [of "''vader_score''" h2 xs cs u1]
    by (simp add: with_column_present del: setitem.simps)
  have g2: "getitem \<lparr>columns = cs, rows = map u2 xs\<rparr> ''transformer_label'' = Inr L"
    using ls by (simp add: getitem_map u2_def u1_def cell_of_update L_def)
  have d3: "setitem ''transformer_label'' (Series (map (str_lower ul) (fillna (Str ''neutral'') L)))
              \<lparr>columns = cs, rows = map u2 xs\<rparr> = \<lparr>columns = cs, rows = map u3 xs\<rparr>"
    unfolding s3 u3_def using ls setitem_Series_map2 [of "''transformer_label''" h3 xs cs u2]
    by (simp add: with_column_present del: setitem.simps)
  have g3: "getitem \<lparr>columns = cs, rows = map u3 xs\<rparr> ''subreddit'' = Inr S"
    using ss by (simp add: getitem_map u3_def u2_def u1_def cell_of_update S_def)
  have d4: "setitem ''subreddit'' (Series (fillna (Str ''unknown'') S))
              \<lparr>columns = cs, rows = map u3 xs\<rparr> = \<lparr>columns = cs, rows = map u4 xs\<rparr>"
    unfolding s4 u4_def using ss setitem_Series_map2 [of "''subreddit''" h4 xs cs u3]
    by (simp add: with_column_present del: setitem.simps)
  have u4: "u4 = convert_row pt pn ul T V"
    by (rule ext) (simp add: u4_def u3_def u2_def u1_def h1_def h2_def h3_def h4_def convert_row_def)
  have acc: "str_accessor (Series col) = Inr filled \<Longrightarrow> filled = col" for col filled
    by (simp split: if_splits)
  have "type_conversions pt pn ul ?df0 =
     (case str_accessor (Series (fillna (Str ''neutral'') L)) of
        Inl e \<Rightarrow> Inl e
      | Inr filled \<Rightarrow>
          Inr \<lparr>columns = cs,
               rows = filter (\<lambda>r. cell_of r ''timestamp'' \<noteq> NaN) (map u4 xs)\<rparr>)"
    using ts
    by (auto simp add: type_conversions_def Let_def T_def [symmetric] d1 g1 d2 g2 d3 g3 d4 dropna_def
        simp del: setitem.simps str_accessor.simps split: sum.splits dest!: acc)
  then show ?thesis
    unfolding u4 T_def V_def L_def .
qed

lemma set_first_seen [simp]: "set (first_seen xs) = set xs"
  by (simp add: first_seen_def)

lemma columns_DataFrame: "set (columns (DataFrame docs)) = (\<Union>d \<in> set docs. fst ` set d)"
  by (auto simp: DataFrame_def)

lemma rows_DataFrame [simp]: "rows (DataFrame docs) = docs"
  by (simp add: DataFrame_def)

lemma DataFrame_Nil: "DataFrame [] = \<lparr>columns = [], rows = []\<rparr>"
  by (simp add: DataFrame_def first_seen_def)

lemma setitem_df_get:
  "setitem k (df_get \<lparr>columns = cs, rows = map u xs\<rparr> k' d) \<lparr>columns = cs, rows = map u xs\<rparr> =
     \<lparr>columns = with_column k cs,
      rows = map (\<lambda>r. AList.update k (if k' \<in> set cs then cell_of (u r) k' else d) (u r)) xs\<rparr>"
proof (cases "k' \<in> set cs")
  case True
  then show ?thesis
    using setitem_Series_map2 [of k "\<lambda>r. cell_of (u r) k'" xs cs u]
    by (simp add: df_get_def comp_def del: setitem.simps)
next
  case False
  then show ?thesis
    by (simp add: df_get_def comp_def)
qed

lemma setitem_Scalar_map:
  "setitem k (Scalar v) \<lparr>columns = cs, rows = map u xs\<rparr> =
     \<lparr>columns = with_column k cs, rows = map (\<lambda>r. AList.update k v (u r)) xs\<rparr>"
  by (simp add: comp_def)

text \<open>The posts frame, row by row.\<close>

lemma df_posts_rowwise:
  "\<exists>f. rows (df_posts posts) = map f posts
     \<and> (\<forall>d k. k \<notin> {''type'', ''link'', ''body_preview''} \<longrightarrow> cell_of (f d) k = cell_of d k)
     \<and> (\<forall>k. k \<notin> {''type'', ''link'', ''body_preview''} \<longrightarrow>
            (k \<in> set (columns (df_posts posts)) \<longleftrightarrow> k \<in> set (columns (DataFrame posts))))
     \<and> (df_empty (df_posts posts) \<longleftrightarrow> df_empty (DataFrame posts))"
proof (cases "df_empty (DataFrame posts)")
  case True
  then have "df_posts posts = DataFrame posts"
    by (simp add: df_posts_def)
  then show ?thesis
    by (intro exI [of _ "\<lambda>d. d"]) simp
next
  case False
  define cs where "cs = columns (DataFrame posts)"
  have D: "DataFrame posts = \<lparr>columns = cs, rows = posts\<rparr>"
    by (simp add: cs_def DataFrame_def)
  define u1 where "u1 = (\<lambda>r. AList.update ''type'' (Str ''Post'') r)"
  define c1 where "c1 = with_column ''type'' cs"
  define u2 where "u2 = (\<lambda>r. AList.update ''link'' (if ''url'' \<in> set c1 then cell_of (u1 r) ''url'' else Str []) (u1 r))"
  define c2 where "c2 = with_column ''link'' c1"
  define u3 where "u3 = (\<lambda>r. AList.update ''body_preview''
                             (if ''selftext'' \<in> set c2 then cell_of (u2 r) ''selftext'' else Str []) (u2 r))"
  define c3 where "c3 = with_column ''body_preview'' c2"
  have e1: "setitem ''type'' (Scalar (Str ''Post'')) \<lparr>columns = cs, rows = posts\<rparr>
              = \<lparr>columns = c1, rows = map u1 posts\<rparr>"
    unfolding u1_def c1_def by simp
  have e2: "setitem ''link'' (df_get \<lparr>columns = c1, rows = map u1 posts\<rparr> ''url'' (Str []))
              \<lparr>columns = c1, rows = map u1 posts\<rparr> = \<lparr>columns = c2, rows = map u2 posts\<rparr>"
    unfolding u2_def c2_def by (rule setitem_df_get)
  have e3: "setitem ''body_preview'' (df_get \<lparr>columns = c2, rows = map u2 posts\<rparr> ''selftext'' (Str []))
              \<lparr>columns = c2, rows = map u2 posts\<rparr> = \<lparr>columns = c3, rows = map u3 posts\<rparr>"
    unfolding u3_def c3_def by (rule setitem_df_get)
  have P: "df_posts posts = \<lparr>columns = c3, rows = map u3 posts\<rparr>"
    using False by (simp add: df_posts_def Let_def D e1 e2 e3 del: setitem.simps)
  have cells: "k \<notin> {''type'', ''link'', ''body_preview''} \<Longrightarrow> cell_of (u3 d) k = cell_of d k" for d k
    by (simp add: u3_def u2_def u1_def cell_of_update)
  have colsk: "k \<notin> {''type'', ''link'', ''body_preview''} \<Longrightarrow> k \<in> set c3 \<longleftrightarrow> k \<in> set cs" for k
    by (simp add: c3_def c2_def c1_def set_with_column)
  have ne: "\<not> df_empty \<lparr>columns = c3, rows = map u3 posts\<rparr>"
    using False by (auto simp: df_empty_def c3_def c2_def c1_def with_column_def)
  show ?thesis
    using cells colsk ne False unfolding P
    by (intro exI [of _ u3]) (simp add: cs_def)
qed

text \<open>The comments frame, row by row.\<close>

lemma df_comments_rowwise:
  assumes "df_comments comments = Inr dfc"
  shows "\<exists>f. rows dfc = map f comments
     \<and> (\<forall>d k. k \<notin> {''type'', ''title'', ''link'', ''body_preview''} \<longrightarrow> cell_of (f d) k = cell_of d k)
     \<and> (\<forall>k. k \<notin> {''type'', ''title'', ''link'', ''body_preview''} \<longrightarrow>
            (k \<in> set (columns dfc) \<longleftrightarrow> k \<in> set (columns (DataFrame comments))))
     \<and> (df_empty dfc \<longleftrightarrow> df_empty (DataFrame comments))
     \<and> (\<not> df_empty (DataFrame comments) \<longrightarrow>
          (\<forall>d. cell_of (f d) ''type'' = Str ''Comment''
              \<and> cell_of (f d) ''title'' = add_str (str_slice 100 (cell_of d ''body'')) ''...''))"
proof (cases "df_empty (DataFrame comments)")
  case True
  with assms have "dfc = DataFrame comments"
    by (simp add: df_comments_def)
  with True show ?thesis
    by (intro exI [of _ "\<lambda>d. d"]) simp
next
  case False
  define cs where "cs = columns (DataFrame comments)"
  have D: "DataFrame comments = \<lparr>columns = cs, rows = comments\<rparr>"
    by (simp add: cs_def DataFrame_def)
  define u1 where "u1 = (\<lambda>r. AList.update ''type'' (Str ''Comment'') r)"
  define c1 where "c1 = with_column ''type'' cs"
  define B where "B = map (\<lambda>r. cell_of (u1 r) ''body'') comments"
  define u2 where "u2 = (\<lambda>r. AList.update ''title'' (add_str (str_slice 100 (cell_of (u1 r) ''body'')) ''...'') (u1 r))"
  define c2 where "c2 = with_column ''title'' c1"
  define u3 where "u3 = (\<lambda>r. AList.update ''body_preview''
                             (if ''body'' \<in> set c2 then cell_of (u2 r) ''body'' else Str []) (u2 r))"
  define c3 where "c3 = with_column ''body_preview'' c2"
  define u4 where "u4 = (\<lambda>r. AList.update ''link''
                             (if ''url'' \<in> set c3 then cell_of (u3 r) ''url'' else Str []) (u3 r))"
  define c4 where "c4 = with_column ''link'' c3"
  have e1: "setitem ''type'' (Scalar (Str ''Comment'')) \<lparr>columns = cs, rows = comments\<rparr>
              = \<lparr>columns = c1, rows = map u1 comments\<rparr>"
    unfolding u1_def c1_def by simp
  have g: "df_get \<lparr>columns = c1, rows = map u1 comments\<rparr> ''body'' (Str [])
             = (if ''body'' \<in> set c1 then Series B else Scalar (Str []))"
    by (simp add: df_get_def B_def comp_def)
  have acc: "str_accessor (df_get \<lparr>columns = c1, rows = map u1 comments\<rparr> ''body'' (Str [])) = Inr B"
    using assms False unfolding df_comments_def Let_def D e1 g
    by (auto split: if_splits sum.splits)
  have e2: "setitem ''title'' (Series (map (\<lambda>c. add_str (str_slice 100 c) ''...'') B))
              \<lparr>columns = c1, rows = map u1 comments\<rparr> = \<lparr>columns = c2, rows = map u2 comments\<rparr>"
    unfolding u2_def c2_def B_def
    using setitem_Series_map2 [of "''title''" "\<lambda>r. add_str (str_slice 100 (cell_of (u1 r) ''body'')) ''...''"
        comments c1 u1]
    by (simp add: comp_def del: setitem.simps)
  have e3: "setitem ''body_preview'' (df_get \<lparr>columns = c2, rows = map u2 comments\<rparr> ''body'' (Str []))
              \<lparr>columns = c2, rows = map u2 comments\<rparr> = \<lparr>columns = c3, rows = map u3 comments\<rparr>"
    unfolding u3_def c3_def by (rule setitem_df_get)
  have e4: "setitem ''link'' (df_get \<lparr>columns = c3, rows = map u3 comments\<rparr> ''url'' (Str []))
              \<lparr>columns = c3, rows = map u3 comments\<rparr> = \<lparr>columns = c4, rows = map u4 comments\<rparr>"
    unfolding u4_def c4_def by (rule setitem_df_get)
  have "df_comments comments = Inr \<lparr>columns = c4, rows = map u4 comments\<rparr>"
    using False by (simp add: df_comments_def Let_def D e1 acc e2 e3 e4 del: setitem.simps)
  with assms have P: "dfc = \<lparr>columns = c4, rows = map u4 comments\<rparr>"
    by simp
  have cells: "k \<notin> {''type'', ''title'', ''link'', ''body_preview''} \<Longrightarrow> cell_of (u4 d) k = cell_of d k" for d k
    by (simp add: u4_def u3_def u2_def u1_def cell_of_update)
  have colsk: "k \<notin> {''type'', ''title'', ''link'', ''body_preview''} \<Longrightarrow> k \<in> set c4 \<longleftrightarrow> k \<in> set cs" for k
    by (simp add: c4_def c3_def c2_def c1_def set_with_column)
  have ne: "\<not> df_empty \<lparr>columns = c4, rows = map u4 comments\<rparr>"
    using False by (auto simp: df_empty_def c4_def c3_def c2_def c1_def with_column_def)
  have tagged: "cell_of (u4 d) ''type'' = Str ''Comment''
      \<and> cell_of (u4 d) ''title'' = add_str (str_slice 100 (cell_of d ''body'')) ''...''" for d
    by (simp add: u4_def u3_def u2_def u1_def cell_of_update)
  show ?thesis
    using cells colsk ne False tagged unfolding P
    by (intro exI [of _ u4]) (simp add: cs_def)
qed

lemma coerce_time_cases:
  "coerce_time pt T c = NaN \<or> (\<exists>t. coerce_time pt T c = Time t)"
  by (auto simp: coerce_time_def split: cell.splits option.splits)

lemma coerce_number_cases:
  "coerce_number pn V c = NaN \<or> (\<exists>x. coerce_number pn V c = Num x)"
  by (auto simp: coerce_number_def split: cell.splits option.splits)

lemma cell_of_convert_row:
  "cell_of (convert_row pt pn ul T V r) k =
     (if k = ''subreddit'' then (if cell_of r ''subreddit'' = NaN then Str ''unknown'' else cell_of r ''subreddit'')
      else if k = ''transformer_label'' then
        str_lower ul (if cell_of r ''transformer_label'' = NaN then Str ''neutral'' else cell_of r ''transformer_label'')
      else if k = ''vader_score'' then
        (if coerce_number pn V (cell_of r ''vader_score'') = NaN then Num 0
         else coerce_number pn V (cell_of r ''vader_score''))
      else if k = ''timestamp'' then coerce_time pt T (cell_of r ''timestamp'')
      else cell_of r k)"
  by (simp add: convert_row_def cell_of_update)

text \<open>What a successful load with a load time went through.\<close>

lemma load_data_Some:
  assumes "load_data pt pn ul now posts comments = Inr (df, Some t)"
  shows "\<exists>dfc. df_comments comments = Inr dfc
           \<and> \<not> (df_empty (df_posts posts) \<and> df_empty dfc)
           \<and> type_conversions pt pn ul (pd_concat (df_posts posts) dfc) = Inr df \<and> t = now"
  using assms
  by (auto simp: load_data_def Let_def split: sum.splits if_splits)

lemma load_data_None:
  "load_data pt pn ul now posts comments = Inr (df, None) \<longleftrightarrow>
     (\<exists>dfc. df_comments comments = Inr dfc \<and> df_empty (df_posts posts) \<and> df_empty dfc)
     \<and> df = DataFrame []"
  by (auto simp: load_data_def Let_def split: sum.splits if_splits)

lemma filter_map_convert:
  assumes "\<And>d. cell_of (f d) ''timestamp'' = cell_of d ''timestamp''"
  shows "filter (\<lambda>r. cell_of r ''timestamp'' \<noteq> NaN) (map (convert_row pt pn ul T V) (map f xs))
           = map (\<lambda>d. convert_row pt pn ul T V (f d))
               (filter (\<lambda>d. coerce_time pt T (cell_of d ''timestamp'') \<noteq> NaN) xs)"
  by (induction xs) (simp_all add: cell_of_convert_row assms)

text \<open>The rows of a loaded Dataset, from the documents of the two queries.\<close>

lemma load_data_rows:
  fixes posts comments :: "document list"
  defines "T \<equiv> map (\<lambda>d. cell_of d ''timestamp'') (posts @ comments)"
      and "V \<equiv> map (\<lambda>d. cell_of d ''vader_score'') (posts @ comments)"
  assumes ok: "load_data pt pn ul now posts comments = Inr (df, Some t)"
  shows "\<exists>dfc fp fc.
           df_comments comments = Inr dfc
         \<and> rows (df_posts posts) = map fp posts \<and> rows dfc = map fc comments
         \<and> (\<forall>d k. k \<notin> {''type'', ''link'', ''body_preview''} \<longrightarrow> cell_of (fp d) k = cell_of d k)
         \<and> (\<forall>d k. k \<notin> {''type'', ''title'', ''link'', ''body_preview''} \<longrightarrow> cell_of (fc d) k = cell_of d k)
         \<and> (\<not> df_empty (DataFrame comments) \<longrightarrow>
              (\<forall>d. cell_of (fc d) ''type'' = Str ''Comment''
                  \<and> cell_of (fc d) ''title'' = add_str (str_slice 100 (cell_of d ''body'')) ''...''))
         \<and> rows df =
              map (\<lambda>d. convert_row pt pn ul T V (fp d))
                (filter (\<lambda>d. coerce_time pt T (cell_of d ''timestamp'') \<noteq> NaN) posts)
              @ map (\<lambda>d. convert_row pt pn ul T V (fc d))
                  (filter (\<lambda>d. coerce_time pt T (cell_of d ''timestamp'') \<noteq> NaN) comments)"
proof -
  from load_data_Some [OF ok] obtain dfc where
    dfc0: "df_comments comments = Inr dfc
           \<and> \<not> (df_empty (df_posts posts) \<and> df_empty dfc)
           \<and> type_conversions pt pn ul (pd_concat (df_posts posts) dfc) = Inr df \<and> t = now" ..
  then have dfc: "df_comments comments = Inr dfc"
    and tc: "type_conversions pt pn ul (pd_concat (df_posts posts) dfc) = Inr df"
    by simp_all
  from df_posts_rowwise [of posts] obtain fp where
    fp0: "rows (df_posts posts) = map fp posts
     \<and> (\<forall>d k. k \<notin> {''type'', ''link'', ''body_preview''} \<longrightarrow> cell_of (fp d) k = cell_of d k)
     \<and> (\<forall>k. k \<notin> {''type'', ''link'', ''body_preview''} \<longrightarrow>
            (k \<in> set (columns (df_posts posts)) \<longleftrightarrow> k \<in> set (columns (DataFrame posts))))
     \<and> (df_empty (df_posts posts) \<longleftrightarrow> df_empty (DataFrame posts))" ..
  then have fp: "rows (df_posts posts) = map fp posts"
    and fpk: "\<forall>d k. k \<notin> {''type'', ''link'', ''body_preview''} \<longrightarrow> cell_of (fp d) k = cell_of d k"
    by simp_all
  from df_comments_rowwise [OF dfc] obtain fc where
    fc0: "rows dfc = map fc comments
     \<and> (\<forall>d k. k \<notin> {''type'', ''title'', ''link'', ''body_preview''} \<longrightarrow> cell_of (fc d) k = cell_of d k)
     \<and> (\<forall>k. k \<notin> {''type'', ''title'', ''link'', ''body_preview''} \<longrightarrow>
            (k \<in> set (columns dfc) \<longleftrightarrow> k \<in> set (columns (DataFrame comments))))
     \<and> (df_empty dfc \<longleftrightarrow> df_empty (DataFrame comments))
     \<and> (\<not> df_empty (DataFrame comments) \<longrightarrow>
          (\<forall>d. cell_of (fc d) ''type'' = Str ''Comment''
              \<and> cell_of (fc d) ''title'' = add_str (str_slice 100 (cell_of d ''body'')) ''...''))" ..
  then have fc: "rows dfc = map fc comments"
    and fck: "\<forall>d k. k \<notin> {''type'', ''title'', ''link'', ''body_preview''} \<longrightarrow> cell_of (fc d) k = cell_of d k"
    and tag: "\<not> df_empty (DataFrame comments) \<longrightarrow>
          (\<forall>d. cell_of (fc d) ''type'' = Str ''Comment''
              \<and> cell_of (fc d) ''title'' = add_str (str_slice 100 (cell_of d ''body'')) ''...'')"
    by simp_all
  define cs where "cs = first_seen (columns (df_posts posts) @ columns dfc)"
  define xs where "xs = map fp posts @ map fc comments"
  have df0: "pd_concat (df_posts posts) dfc = \<lparr>columns = cs, rows = xs\<rparr>"
    by (simp add: pd_concat_def cs_def xs_def fp fc)
  have Tx: "map (\<lambda>r. cell_of r ''timestamp'') xs = T"
    using fpk fck by (simp add: xs_def T_def comp_def)
  have Vx: "map (\<lambda>r. cell_of r ''vader_score'') xs = V"
    using fpk fck by (simp add: xs_def V_def comp_def)
  from type_conversions_columns [OF tc]
  have cols: "has_columns \<lparr>columns = cs, rows = xs\<rparr>
                [''timestamp'', ''vader_score'', ''transformer_label'', ''subreddit'']"
    by (simp add: df0)
  from tc have "rows df = filter (\<lambda>r. cell_of r ''timestamp'' \<noteq> NaN) (map (convert_row pt pn ul T V) xs)"
    unfolding df0 type_conversions_rowwise [OF cols] Tx Vx
    by (auto split: sum.splits)
  also have "\<dots> = map (\<lambda>d. convert_row pt pn ul T V (fp d))
                (filter (\<lambda>d. coerce_time pt T (cell_of d ''timestamp'') \<noteq> NaN) posts)
              @ map (\<lambda>d. convert_row pt pn ul T V (fc d))
                  (filter (\<lambda>d. coerce_time pt T (cell_of d ''timestamp'') \<noteq> NaN) comments)"
  proof -
    have p: "cell_of (fp d) ''timestamp'' = cell_of d ''timestamp''" for d
      using fpk by simp
    have c: "cell_of (fc d) ''timestamp'' = cell_of d ''timestamp''" for d
      using fck by simp
    show ?thesis
      unfolding xs_def map_append filter_append
      by (simp only: filter_map_convert [of fp, OF p] filter_map_convert [of fc, OF c])
  qed
  finally have rs: "rows df = map (\<lambda>d. convert_row pt pn ul T V (fp d))
                (filter (\<lambda>d. coerce_time pt T (cell_of d ''timestamp'') \<noteq> NaN) posts)
              @ map (\<lambda>d. convert_row pt pn ul T V (fc d))
                  (filter (\<lambda>d. coerce_time pt T (cell_of d ''timestamp'') \<noteq> NaN) comments)" .
  show ?thesis
    apply (rule exI [of _ dfc])
    apply (rule exI [of _ fp])
    apply (rule exI [of _ fc])
    apply (intro conjI)
          apply (rule dfc)
         apply (rule fp)
        apply (rule fc)
       apply (rule fpk)
      apply (rule fck)
     apply (rule tag)
    apply (rule rs)
    done
qed

text \<open>A Dataset loaded with a load time has the columns the filter reads.\<close>

lemma columns_setitem: "columns (setitem k s df) = with_column k (columns df)"
  by (cases s) simp_all

lemma type_in_df_posts:
  assumes "\<not> df_empty (df_posts posts)"
  shows "''type'' \<in> set (columns (df_posts posts))"
proof (cases "df_empty (DataFrame posts)")
  case True
  with assms show ?thesis
    by (simp add: df_posts_def)
next
  case False
  then show ?thesis
    by (simp add: df_posts_def Let_def columns_setitem set_with_column del: setitem.simps)
qed

lemma type_in_df_comments:
  assumes "df_comments comments = Inr dfc" and "\<not> df_empty dfc"
  shows "''type'' \<in> set (columns dfc)"
proof (cases "df_empty (DataFrame comments)")
  case True
  with assms show ?thesis
    by (simp add: df_comments_def)
next
  case False
  with assms(1) show ?thesis
    by (auto simp add: df_comments_def Let_def columns_setitem set_with_column
        simp del: setitem.simps str_accessor.simps split: sum.splits)
qed

lemma type_conversions_keeps_columns:
  assumes "type_conversions parse_time parse_number unicode_lower df0 = Inr df"
  shows "columns df = columns df0"
proof -
  have r: "\<lparr>columns = columns df0, rows = rows df0\<rparr> = df0"
    by simp
  from type_conversions_columns [OF assms]
  have "has_columns \<lparr>columns = columns df0, rows = rows df0\<rparr>
          [''timestamp'', ''vader_score'', ''transformer_label'', ''subreddit'']"
    by (simp add: has_columns_def)
  from type_conversions_rowwise [OF this, of parse_time parse_number unicode_lower] assms
  show ?thesis
    unfolding r by (auto split: sum.splits)
qed

lemma load_data_filter_columns:
  assumes "load_data parse_time parse_number unicode_lower now posts comments = Inr (df, Some t)"
  shows "has_columns df [''subreddit'', ''type'', ''transformer_label'']"
proof -
  from load_data_Some [OF assms] obtain dfc where
    a: "df_comments comments = Inr dfc
           \<and> \<not> (df_empty (df_posts posts) \<and> df_empty dfc)
           \<and> type_conversions parse_time parse_number unicode_lower (pd_concat (df_posts posts) dfc) = Inr df
           \<and> t = now" ..
  then have c: "df_comments comments = Inr dfc"
    and ne: "\<not> df_empty (df_posts posts) \<or> \<not> df_empty dfc"
    and tc: "type_conversions parse_time parse_number unicode_lower (pd_concat (df_posts posts) dfc) = Inr df"
    by simp_all
  from ne have "''type'' \<in> set (columns (df_posts posts)) \<or> ''type'' \<in> set (columns dfc)"
    using type_in_df_posts [of posts] type_in_df_comments [OF c] by blast
  then have ty: "''type'' \<in> set (columns (pd_concat (df_posts posts) dfc))"
    by (auto simp: pd_concat_def)
  from type_conversions_columns [OF tc] type_conversions_keeps_columns [OF tc] ty
  show ?thesis
    by (simp add: has_columns_def)
qed

section \<open>What the loader returns\<close>

lemma list_all2_map_same:
  assumes "\<And>x. x \<in> set xs \<Longrightarrow> R x (g x)"
  shows "list_all2 R xs (map g xs)"
  using assms by (induction xs) auto

lemma lower_neutral: "lower unicode_lower ''neutral'' = ''neutral''"
  by (simp add: lower_def ascii_def)

text \<open>
  Claim C2, as amended. A load that returns a load time returns, in the order of the
  documents (posts, then comments), one row for each document whose timestamp parses, and
  no other row: a document whose timestamp is missing or does not parse is left out. In
  the row of a document, the timestamp is the parsed time; the score is the number read
  from the document's score, and \<open>0\<close> where that is missing or does not parse; for a
  missing label the label is \<open>neutral\<close>, and for a label that is a string it is that
  string in lower case, so in both cases it is not missing; the subreddit is
  \<open>unknown\<close> for a missing one and is otherwise kept, so it is never missing. An empty
  string is not a missing value: it is kept as it is.
\<close>

theorem load_data_normalization:
  fixes posts comments :: "document list"
  defines "T \<equiv> map (\<lambda>d. cell_of d ''timestamp'') (posts @ comments)"
      and "V \<equiv> map (\<lambda>d. cell_of d ''vader_score'') (posts @ comments)"
  assumes ok: "load_data parse_time parse_number unicode_lower now posts comments = Inr (df, Some t)"
  shows "list_all2
           (\<lambda>d r.
              cell_of r ''timestamp'' = coerce_time parse_time T (cell_of d ''timestamp'')
            \<and> (\<exists>i. cell_of r ''timestamp'' = Time i)
            \<and> cell_of r ''vader_score'' =
                 (case coerce_number parse_number V (cell_of d ''vader_score'') of
                    NaN \<Rightarrow> Num 0 | c \<Rightarrow> c)
            \<and> (\<exists>x. cell_of r ''vader_score'' = Num x)
            \<and> (case cell_of d ''transformer_label'' of
                  NaN \<Rightarrow> cell_of r ''transformer_label'' = Str ''neutral''
                | Str s \<Rightarrow> cell_of r ''transformer_label'' = Str (lower unicode_lower s)
                | _ \<Rightarrow> True)
            \<and> cell_of r ''subreddit'' =
                 (case cell_of d ''subreddit'' of NaN \<Rightarrow> Str ''unknown'' | c \<Rightarrow> c)
            \<and> cell_of r ''subreddit'' \<noteq> NaN)
           (filter (\<lambda>d. coerce_time parse_time T (cell_of d ''timestamp'') \<noteq> NaN) (posts @ comments))
           (rows df)"
proof -
  let ?valid = "\<lambda>d. coerce_time parse_time T (cell_of d ''timestamp'') \<noteq> NaN"
  let ?R = "\<lambda>d r.
              cell_of r ''timestamp'' = coerce_time parse_time T (cell_of d ''timestamp'')
            \<and> (\<exists>i. cell_of r ''timestamp'' = Time i)
            \<and> cell_of r ''vader_score'' =
                 (case coerce_number parse_number V (cell_of d ''vader_score'') of
                    NaN \<Rightarrow> Num 0 | c \<Rightarrow> c)
            \<and> (\<exists>x. cell_of r ''vader_score'' = Num x)
            \<and> (case cell_of d ''transformer_label'' of
                  NaN \<Rightarrow> cell_of r ''transformer_label'' = Str ''neutral''
                | Str s \<Rightarrow> cell_of r ''transformer_label'' = Str (lower unicode_lower s)
                | _ \<Rightarrow> True)
            \<and> cell_of r ''subreddit'' =
                 (case cell_of d ''subreddit'' of NaN \<Rightarrow> Str ''unknown'' | c \<Rightarrow> c)
            \<and> cell_of r ''subreddit'' \<noteq> NaN"
  note rowwise = load_data_rows [OF ok, folded T_def V_def]
  from rowwise obtain dfc :: dataframe and fp fc where
    all: "df_comments comments = Inr dfc
         \<and> rows (df_posts posts) = map fp posts \<and> rows dfc = map fc comments
         \<and> (\<forall>d k. k \<notin> {''type'', ''link'', ''body_preview''} \<longrightarrow> cell_of (fp d) k = cell_of d k)
         \<and> (\<forall>d k. k \<notin> {''type'', ''title'', ''link'', ''body_preview''} \<longrightarrow> cell_of (fc d) k = cell_of d k)
         \<and> (\<not> df_empty (DataFrame comments) \<longrightarrow>
              (\<forall>d. cell_of (fc d) ''type'' = Str ''Comment''
                  \<and> cell_of (fc d) ''title'' = add_str (str_slice 100 (cell_of d ''body'')) ''...''))
         \<and> rows df =
              map (\<lambda>d. convert_row parse_time parse_number unicode_lower T V (fp d)) (filter ?valid posts)
              @ map (\<lambda>d. convert_row parse_time parse_number unicode_lower T V (fc d)) (filter ?valid comments)"
    by (elim exE) (rule that)
  then have fpk: "\<forall>d k. k \<notin> {''type'', ''link'', ''body_preview''} \<longrightarrow> cell_of (fp d) k = cell_of d k"
    and fck: "\<forall>d k. k \<notin> {''type'', ''title'', ''link'', ''body_preview''} \<longrightarrow> cell_of (fc d) k = cell_of d k"
    and rs: "rows df =
              map (\<lambda>d. convert_row parse_time parse_number unicode_lower T V (fp d)) (filter ?valid posts)
              @ map (\<lambda>d. convert_row parse_time parse_number unicode_lower T V (fc d)) (filter ?valid comments)"
    by simp_all
  have row: "?R d (convert_row parse_time parse_number unicode_lower T V (f d))"
    if keep: "\<forall>k. k \<in> {''timestamp'', ''vader_score'', ''transformer_label'', ''subreddit''}
                 \<longrightarrow> cell_of (f d) k = cell_of d k"
      and v: "?valid d" for f d
  proof -
    let ?r = "convert_row parse_time parse_number unicode_lower T V (f d)"
    from keep have k1: "cell_of (f d) ''timestamp'' = cell_of d ''timestamp''"
      and k2: "cell_of (f d) ''vader_score'' = cell_of d ''vader_score''"
      and k3: "cell_of (f d) ''transformer_label'' = cell_of d ''transformer_label''"
      and k4: "cell_of (f d) ''subreddit'' = cell_of d ''subreddit''"
      by simp_all
    have c1: "cell_of ?r ''timestamp'' = coerce_time parse_time T (cell_of d ''timestamp'')"
      by (simp add: cell_of_convert_row k1)
    have c2: "cell_of ?r ''vader_score'' =
                 (case coerce_number parse_number V (cell_of d ''vader_score'') of
                    NaN \<Rightarrow> Num 0 | c \<Rightarrow> c)"
      by (simp add: cell_of_convert_row k2 split: cell.splits)
    have c3: "(case cell_of d ''transformer_label'' of
                  NaN \<Rightarrow> cell_of ?r ''transformer_label'' = Str ''neutral''
                | Str s \<Rightarrow> cell_of ?r ''transformer_label'' = Str (lower unicode_lower s)
                | _ \<Rightarrow> True)"
      by (simp add: cell_of_convert_row k3 lower_neutral split: cell.splits)
    have c4: "cell_of ?r ''subreddit'' =
                 (case cell_of d ''subreddit'' of NaN \<Rightarrow> Str ''unknown'' | c \<Rightarrow> c)"
      by (simp add: cell_of_convert_row k4 split: cell.splits)
    have e1: "\<exists>i. cell_of ?r ''timestamp'' = Time i"
      unfolding c1 using v coerce_time_cases [of parse_time T "cell_of d ''timestamp''"] by blast
    have e2: "\<exists>x. cell_of ?r ''vader_score'' = Num x"
      unfolding c2 using coerce_number_cases [of parse_number V "cell_of d ''vader_score''"] by auto
    have e4: "cell_of ?r ''subreddit'' \<noteq> NaN"
      unfolding c4 by (simp split: cell.splits)
    show ?thesis
      by (intro conjI c1 e1 c2 e2 c3 c4 e4)
  qed
  have "list_all2 ?R (filter ?valid posts)
          (map (\<lambda>d. convert_row parse_time parse_number unicode_lower T V (fp d)) (filter ?valid posts))"
    by (rule list_all2_map_same, rule row) (use fpk in simp_all)
  moreover have "list_all2 ?R (filter ?valid comments)
          (map (\<lambda>d. convert_row parse_time parse_number unicode_lower T V (fc d)) (filter ?valid comments))"
    by (rule list_all2_map_same, rule row) (use fck in simp_all)
  ultimately show ?thesis
    unfolding rs filter_append by (rule list_all2_appendI)
qed

lemmas frame_eval =
  DataFrame_def first_seen_def df_empty_def df_get_def with_column_def cell_of_def getitem_def
  pd_concat_def dropna_def fillna_def to_datetime_def to_numeric_def coerce_time_def
  coerce_number_def only_numbers_def only_times_def lower_def ascii_def Let_def

lemmas load_eval =
  load_data_def df_posts_def df_comments_def type_conversions_def

lemma example_load:
  "load_data example_parse_time example_parse_number example_unicode_lower ''now''
     example_posts example_comments =
     Inr (\<lparr>columns = [''subreddit'', ''timestamp'', ''vader_score'', ''transformer_label'', ''type'',
                       ''link'', ''body_preview'', ''body'', ''title''],
           rows =
             [[(''subreddit'', Str []), (''timestamp'', Time 0), (''vader_score'', Num 0),
               (''transformer_label'', Str ''positive''), (''type'', Str ''Post''),
               (''link'', Str []), (''body_preview'', Str [])],
              [(''timestamp'', Time 0), (''vader_score'', Num (1 / 2)), (''transformer_label'', NaN),
               (''type'', Str ''Post''), (''link'', Str []), (''body_preview'', Str []),
               (''subreddit'', Str ''unknown'')],
              [(''body'', Str ''hello''), (''timestamp'', Time 0), (''type'', Str ''Comment''),
               (''title'', Str ''hello...''), (''body_preview'', Str ''hello''), (''link'', Str []),
               (''vader_score'', Num 0), (''transformer_label'', Str ''neutral''),
               (''subreddit'', Str ''unknown'')]]\<rparr>,
          Some ''now'')"
  by (simp add: load_eval frame_eval example_posts_def example_comments_def
      example_parse_time_def example_parse_number_def)

theorem load_data_normalization_counterexample:
  "\<exists>df. load_data example_parse_time example_parse_number example_unicode_lower ''now''
            example_posts example_comments = Inr (df, Some ''now'')
       \<and> (let r = hd (rows df); d = hd example_posts
          in cell_of d ''subreddit'' = Str [] \<and> cell_of r ''subreddit'' = Str [])"
  unfolding example_load by (simp add: cell_of_def example_posts_def)

theorem load_data_normalization_witness:
  "\<exists>df. load_data example_parse_time example_parse_number example_unicode_lower ''now''
            example_posts example_comments = Inr (df, Some ''now'')
       \<and> list_all2
           (\<lambda>d r.
              cell_of r ''timestamp'' =
                coerce_time example_parse_time
                  (map (\<lambda>d. cell_of d ''timestamp'') (example_posts @ example_comments))
                  (cell_of d ''timestamp'')
            \<and> (\<exists>i. cell_of r ''timestamp'' = Time i)
            \<and> cell_of r ''vader_score'' =
                 (case coerce_number example_parse_number
                         (map (\<lambda>d. cell_of d ''vader_score'') (example_posts @ example_comments))
                         (cell_of d ''vader_score'') of
                    NaN \<Rightarrow> Num 0 | c \<Rightarrow> c)
            \<and> (\<exists>x. cell_of r ''vader_score'' = Num x)
            \<and> (case cell_of d ''transformer_label'' of
                  NaN \<Rightarrow> cell_of r ''transformer_label'' = Str ''neutral''
                | Str s \<Rightarrow> cell_of r ''transformer_label'' = Str (lower example_unicode_lower s)
                | _ \<Rightarrow> True)
            \<and> cell_of r ''subreddit'' =
                 (case cell_of d ''subreddit'' of NaN \<Rightarrow> Str ''unknown'' | c \<Rightarrow> c)
            \<and> cell_of r ''subreddit'' \<noteq> NaN)
           (filter (\<lambda>d. coerce_time example_parse_time
                           (map (\<lambda>d. cell_of d ''timestamp'') (example_posts @ example_comments))
                           (cell_of d ''timestamp'') \<noteq> NaN)
              (example_posts @ example_comments))
           (rows df)"
  using load_data_normalization [OF example_load] example_load by blast

text \<open>
  Claim C3. With no post and no comment, \<open>load_data\<close> returns the empty frame
  and no load time, and raises nothing. A call returns no load time exactly when both
  frames are empty, and then with the empty frame: this result is neither an error nor
  the result of a load that found data.
\<close>

theorem load_data_empty_sources:
  "load_data parse_time parse_number unicode_lower now [] [] = Inr (DataFrame [], None)
   \<and> df_empty (DataFrame []) \<and> len (DataFrame []) = 0
   \<and> (load_data parse_time parse_number unicode_lower now posts comments = Inr (df, None) \<longleftrightarrow>
        df_empty (DataFrame posts) \<and> df_empty (DataFrame comments) \<and> df = DataFrame [])"
proof (intro conjI)
  show "load_data parse_time parse_number unicode_lower now [] [] = Inr (DataFrame [], None)"
    by (simp add: load_data_def df_posts_def df_comments_def DataFrame_Nil df_empty_def)
  show "df_empty (DataFrame [])"
    by (simp add: DataFrame_Nil df_empty_def)
  show "len (DataFrame []) = 0"
    by (simp add: len_def)
  have p: "df_empty (df_posts posts) \<longleftrightarrow> df_empty (DataFrame posts)"
    using df_posts_rowwise [of posts] by blast
  have c: "(\<exists>dfc. df_comments comments = Inr dfc \<and> df_empty dfc) \<longleftrightarrow> df_empty (DataFrame comments)"
  proof
    assume "\<exists>dfc. df_comments comments = Inr dfc \<and> df_empty dfc"
    then obtain dfc where d: "df_comments comments = Inr dfc" and e: "df_empty dfc"
      by blast
    from df_comments_rowwise [OF d] e show "df_empty (DataFrame comments)"
      by blast
  next
    assume "df_empty (DataFrame comments)"
    then show "\<exists>dfc. df_comments comments = Inr dfc \<and> df_empty dfc"
      by (simp add: df_comments_def)
  qed
  show "load_data parse_time parse_number unicode_lower now posts comments = Inr (df, None) \<longleftrightarrow>
        df_empty (DataFrame posts) \<and> df_empty (DataFrame comments) \<and> df = DataFrame []"
    unfolding load_data_None p using c by blast
qed

theorem load_data_empty_sources_witness:
  "load_data example_parse_time example_parse_number example_unicode_lower ''now'' [] [] = Inr (DataFrame [], None)
   \<and> load_data example_parse_time example_parse_number example_unicode_lower ''now'' example_posts example_comments
        \<noteq> Inr (DataFrame [], None)"
  using load_data_empty_sources [of example_parse_time example_parse_number example_unicode_lower "''now''"
      example_posts example_comments "DataFrame []"]
  by (simp add: example_load)

lemma title_synthesis:
  "add_str (str_slice 100 c) ''...'' = (case c of Str s \<Rightarrow> Str (take 100 s @ ''...'') | _ \<Rightarrow> NaN)"
  by (cases c) simp_all

lemma subseq_map_filter: "subseq (map f (filter p xs)) (map f xs)"
  by (simp add: subseq_map)

text \<open>
  Claim C9. In a load with a non-empty comments frame, every comment row is tagged
  \<open>Comment\<close> and its title is \<^verbatim>\<open>body[:100] + "..."\<close>: the first 100
  characters of the body of its document followed by three dots, for a body of any
  length (for a comment whose body is not a string, the title is missing). The rows of
  the loaded Dataset are rows of the posts frame followed by rows of the comments frame,
  with type, body and title unchanged.
\<close>

theorem comment_title_synthesis:
  assumes ok: "load_data parse_time parse_number unicode_lower now posts comments = Inr (df, loaded_at)"
      and ne: "\<not> df_empty (DataFrame comments)"
  shows "\<exists>dfc kept_posts kept_comments.
           df_comments comments = Inr dfc
         \<and> list_all2
              (\<lambda>d r. cell_of r ''type'' = Str ''Comment''
                    \<and> cell_of r ''body'' = cell_of d ''body''
                    \<and> cell_of r ''title'' =
                        (case cell_of d ''body'' of
                           Str s \<Rightarrow> Str (take 100 s @ ''...'') | _ \<Rightarrow> NaN))
              comments (rows dfc)
         \<and> subseq kept_posts (rows (df_posts posts)) \<and> subseq kept_comments (rows dfc)
         \<and> list_all2
              (\<lambda>r0 r. cell_of r ''type'' = cell_of r0 ''type''
                     \<and> cell_of r ''body'' = cell_of r0 ''body''
                     \<and> cell_of r ''title'' = cell_of r0 ''title'')
              (kept_posts @ kept_comments) (rows df)"
proof -
  have "loaded_at \<noteq> None"
  proof
    assume "loaded_at = None"
    with ok have "load_data parse_time parse_number unicode_lower now posts comments = Inr (df, None)"
      by simp
    then have "\<exists>dfc. df_comments comments = Inr dfc \<and> df_empty (df_posts posts) \<and> df_empty dfc"
      unfolding load_data_None by simp
    then obtain dfc where d: "df_comments comments = Inr dfc" and e: "df_empty dfc"
      by blast
    from df_comments_rowwise [OF d] e ne show False
      by blast
  qed
  then obtain t where ok': "load_data parse_time parse_number unicode_lower now posts comments = Inr (df, Some t)"
    using ok by auto
  define T where "T = map (\<lambda>d. cell_of d ''timestamp'') (posts @ comments)"
  define V where "V = map (\<lambda>d. cell_of d ''vader_score'') (posts @ comments)"
  let ?valid = "\<lambda>d. coerce_time parse_time T (cell_of d ''timestamp'') \<noteq> NaN"
  let ?conv = "convert_row parse_time parse_number unicode_lower T V"
  note rowwise = load_data_rows [OF ok', folded T_def V_def]
  from rowwise obtain dfc :: dataframe and fp fc where
    all: "df_comments comments = Inr dfc
         \<and> rows (df_posts posts) = map fp posts \<and> rows dfc = map fc comments
         \<and> (\<forall>d k. k \<notin> {''type'', ''link'', ''body_preview''} \<longrightarrow> cell_of (fp d) k = cell_of d k)
         \<and> (\<forall>d k. k \<notin> {''type'', ''title'', ''link'', ''body_preview''} \<longrightarrow> cell_of (fc d) k = cell_of d k)
         \<and> (\<not> df_empty (DataFrame comments) \<longrightarrow>
              (\<forall>d. cell_of (fc d) ''type'' = Str ''Comment''
                  \<and> cell_of (fc d) ''title'' = add_str (str_slice 100 (cell_of d ''body'')) ''...''))
         \<and> rows df =
              map (\<lambda>d. ?conv (fp d)) (filter ?valid posts)
              @ map (\<lambda>d. ?conv (fc d)) (filter ?valid comments)"
    by (elim exE) (rule that)
  then have dfc: "df_comments comments = Inr dfc"
    and fp: "rows (df_posts posts) = map fp posts" and fc: "rows dfc = map fc comments"
    and fck: "\<forall>d k. k \<notin> {''type'', ''title'', ''link'', ''body_preview''} \<longrightarrow> cell_of (fc d) k = cell_of d k"
    and rs: "rows df =
              map (\<lambda>d. ?conv (fp d)) (filter ?valid posts)
              @ map (\<lambda>d. ?conv (fc d)) (filter ?valid comments)"
    by simp_all
  from all ne have tag: "cell_of (fc d) ''type'' = Str ''Comment''
      \<and> cell_of (fc d) ''title'' = add_str (str_slice 100 (cell_of d ''body'')) ''...''" for d
    by simp
  define kp where "kp = map fp (filter ?valid posts)"
  define kc where "kc = map fc (filter ?valid comments)"
  have tagged: "list_all2
              (\<lambda>d r. cell_of r ''type'' = Str ''Comment''
                    \<and> cell_of r ''body'' = cell_of d ''body''
                    \<and> cell_of r ''title'' =
                        (case cell_of d ''body'' of
                           Str s \<Rightarrow> Str (take 100 s @ ''...'') | _ \<Rightarrow> NaN))
              comments (rows dfc)"
    unfolding fc
  proof (rule list_all2_map_same)
    fix d
    from fck have "cell_of (fc d) ''body'' = cell_of d ''body''"
      by simp
    with tag [of d] show "cell_of (fc d) ''type'' = Str ''Comment''
                    \<and> cell_of (fc d) ''body'' = cell_of d ''body''
                    \<and> cell_of (fc d) ''title'' =
                        (case cell_of d ''body'' of
                           Str s \<Rightarrow> Str (take 100 s @ ''...'') | _ \<Rightarrow> NaN)"
      by (simp add: title_synthesis)
  qed
  have sp: "subseq kp (rows (df_posts posts))"
    unfolding kp_def fp by (rule subseq_map_filter)
  have sc: "subseq kc (rows dfc)"
    unfolding kc_def fc by (rule subseq_map_filter)
  have "rows df = map ?conv (kp @ kc)"
    unfolding rs kp_def kc_def by (simp add: comp_def)
  moreover have "list_all2
              (\<lambda>r0 r. cell_of r ''type'' = cell_of r0 ''type''
                     \<and> cell_of r ''body'' = cell_of r0 ''body''
                     \<and> cell_of r ''title'' = cell_of r0 ''title'')
              (kp @ kc) (map ?conv (kp @ kc))"
    by (rule list_all2_map_same) (simp add: cell_of_convert_row)
  ultimately have kept: "list_all2
              (\<lambda>r0 r. cell_of r ''type'' = cell_of r0 ''type''
                     \<and> cell_of r ''body'' = cell_of r0 ''body''
                     \<and> cell_of r ''title'' = cell_of r0 ''title'')
              (kp @ kc) (rows df)"
    by simp
  show ?thesis
    apply (rule exI [of _ dfc])
    apply (rule exI [of _ kp])
    apply (rule exI [of _ kc])
    apply (intro conjI)
        apply (rule dfc)
       apply (rule tagged)
      apply (rule sp)
     apply (rule sc)
    apply (rule kept)
    done
qed

theorem comment_title_synthesis_witness:
  "\<not> df_empty (DataFrame example_comments)
   \<and> (\<exists>df dfc kept_posts kept_comments.
         load_data example_parse_time example_parse_number example_unicode_lower ''now'' example_posts example_comments
           = Inr (df, Some ''now'')
       \<and> df_comments example_comments = Inr dfc
       \<and> list_all2
              (\<lambda>d r. cell_of r ''type'' = Str ''Comment''
                    \<and> cell_of r ''body'' = cell_of d ''body''
                    \<and> cell_of r ''title'' =
                        (case cell_of d ''body'' of
                           Str s \<Rightarrow> Str (take 100 s @ ''...'') | _ \<Rightarrow> NaN))
              example_comments (rows dfc)
       \<and> subseq kept_posts (rows (df_posts example_posts)) \<and> subseq kept_comments (rows dfc)
       \<and> list_all2
              (\<lambda>r0 r. cell_of r ''type'' = cell_of r0 ''type''
                     \<and> cell_of r ''body'' = cell_of r0 ''body''
                     \<and> cell_of r ''title'' = cell_of r0 ''title'')
              (kept_posts @ kept_comments) (rows df))"
proof -
  have ne: "\<not> df_empty (DataFrame example_comments)"
    by (simp add: frame_eval example_comments_def)
  from comment_title_synthesis [OF example_load ne] example_load ne
  show ?thesis by blast
qed

lemma type_conversions_no_scores:
  assumes "''vader_score'' \<notin> set (columns df0)"
  shows "type_conversions parse_time parse_number unicode_lower df0 = Inl (KeyError ''vader_score'')"
  using assms by (simp add: type_conversions_def Let_def getitem_def set_with_column)

lemma type_conversions_no_labels:
  assumes "''vader_score'' \<in> set (columns df0)" and "''transformer_label'' \<notin> set (columns df0)"
  shows "type_conversions parse_time parse_number unicode_lower df0 = Inl (KeyError ''transformer_label'')"
  using assms by (simp add: type_conversions_def Let_def getitem_def set_with_column)

lemma column_of_DataFrame:
  "k \<in> set (columns (DataFrame docs)) \<longleftrightarrow> (\<exists>d \<in> set docs. map_of d k \<noteq> None)"
  by (auto simp: columns_DataFrame map_of_eq_None_iff)

lemma column_of_concat:
  assumes c: "df_comments comments = Inr dfc"
      and k: "k \<notin> {''type'', ''title'', ''link'', ''body_preview''}"
  shows "k \<in> set (columns (pd_concat (df_posts posts) dfc)) \<longleftrightarrow>
           (\<exists>d \<in> set (posts @ comments). map_of d k \<noteq> None)"
proof -
  from df_posts_rowwise [of posts] k
  have "k \<in> set (columns (df_posts posts)) \<longleftrightarrow> k \<in> set (columns (DataFrame posts))"
    by blast
  moreover from df_comments_rowwise [OF c] k
  have "k \<in> set (columns dfc) \<longleftrightarrow> k \<in> set (columns (DataFrame comments))"
    by blast
  ultimately show ?thesis
    by (auto simp: pd_concat_def column_of_DataFrame)
qed

text \<open>
  Claim C10. When the comments frame is built without error and the two frames are not
  both empty: if no document carries a \<open>vader_score\<close> field, \<open>load_data\<close>
  raises \<open>KeyError\<close> for it and applies no default; if some document carries a score
  and none a \<open>transformer_label\<close> field, it raises \<open>KeyError\<close> for the label.
\<close>

theorem load_data_missing_column:
  assumes c: "df_comments comments = Inr dfc"
      and ne: "\<not> (df_empty (df_posts posts) \<and> df_empty dfc)"
  shows "((\<forall>d \<in> set (posts @ comments). map_of d ''vader_score'' = None) \<longrightarrow>
            load_data parse_time parse_number unicode_lower now posts comments = Inl (KeyError ''vader_score''))
       \<and> ((\<exists>d \<in> set (posts @ comments). map_of d ''vader_score'' \<noteq> None) \<and>
          (\<forall>d \<in> set (posts @ comments). map_of d ''transformer_label'' = None) \<longrightarrow>
            load_data parse_time parse_number unicode_lower now posts comments = Inl (KeyError ''transformer_label''))"
proof -
  let ?df0 = "pd_concat (df_posts posts) dfc"
  have load: "load_data parse_time parse_number unicode_lower now posts comments =
        (case type_conversions parse_time parse_number unicode_lower ?df0 of
           Inl e \<Rightarrow> Inl e | Inr df \<Rightarrow> Inr (df, Some now))"
    by (simp add: load_data_def Let_def c ne)
  have v: "''vader_score'' \<in> set (columns ?df0) \<longleftrightarrow>
             (\<exists>d \<in> set (posts @ comments). map_of d ''vader_score'' \<noteq> None)"
    by (rule column_of_concat [OF c]) simp
  have l: "''transformer_label'' \<in> set (columns ?df0) \<longleftrightarrow>
             (\<exists>d \<in> set (posts @ comments). map_of d ''transformer_label'' \<noteq> None)"
    by (rule column_of_concat [OF c]) simp
  show ?thesis
  proof (intro conjI impI)
    assume "\<forall>d \<in> set (posts @ comments). map_of d ''vader_score'' = None"
    then have "''vader_score'' \<notin> set (columns ?df0)"
      unfolding v by simp
    then show "load_data parse_time parse_number unicode_lower now posts comments = Inl (KeyError ''vader_score'')"
      unfolding load by (simp add: type_conversions_no_scores)
  next
    assume a: "(\<exists>d \<in> set (posts @ comments). map_of d ''vader_score'' \<noteq> None) \<and>
          (\<forall>d \<in> set (posts @ comments). map_of d ''transformer_label'' = None)"
    then have "''vader_score'' \<in> set (columns ?df0)"
      unfolding v by (rule conjunct1)
    moreover from a have "''transformer_label'' \<notin> set (columns ?df0)"
      unfolding l by simp
    ultimately show "load_data parse_time parse_number unicode_lower now posts comments
                       = Inl (KeyError ''transformer_label'')"
      unfolding load by (simp add: type_conversions_no_labels)
  qed
qed

theorem load_data_missing_column_witness:
  "df_comments [] = Inr (DataFrame [])
   \<and> \<not> (df_empty (df_posts posts_without_scores) \<and> df_empty (DataFrame []))
   \<and> \<not> (df_empty (df_posts posts_without_labels) \<and> df_empty (DataFrame []))
   \<and> load_data example_parse_time example_parse_number example_unicode_lower ''now'' posts_without_scores []
        = Inl (KeyError ''vader_score'')
   \<and> load_data example_parse_time example_parse_number example_unicode_lower ''now'' posts_without_labels []
        = Inl (KeyError ''transformer_label'')"
proof -
  have c: "df_comments [] = Inr (DataFrame [])"
    by (simp add: df_comments_def frame_eval)
  have n1: "\<not> (df_empty (df_posts posts_without_scores) \<and> df_empty (DataFrame []))"
    by (simp add: df_posts_def frame_eval posts_without_scores_def)
  have n2: "\<not> (df_empty (df_posts posts_without_labels) \<and> df_empty (DataFrame []))"
    by (simp add: df_posts_def frame_eval posts_without_labels_def)
  have h1: "\<forall>d \<in> set (posts_without_scores @ []). map_of d ''vader_score'' = None"
    by (simp add: posts_without_scores_def)
  have h2: "(\<exists>d \<in> set (posts_without_labels @ []). map_of d ''vader_score'' \<noteq> None) \<and>
            (\<forall>d \<in> set (posts_without_labels @ []). map_of d ''transformer_label'' = None)"
    by (simp add: posts_without_labels_def)
  from load_data_missing_column [OF c n1, of example_parse_time example_parse_number example_unicode_lower "''now''"] h1
  have "load_data example_parse_time example_parse_number example_unicode_lower ''now'' posts_without_scores []
        = Inl (KeyError ''vader_score'')"
    by blast
  moreover
  from load_data_missing_column [OF c n2, of example_parse_time example_parse_number example_unicode_lower "''now''"] h2
  have "load_data example_parse_time example_parse_number example_unicode_lower ''now'' posts_without_labels []
        = Inl (KeyError ''transformer_label'')"
    by blast
  ultimately show ?thesis
    using c n1 n2 by blast
qed

section \<open>Properties of the aggregations\<close>

lemma value_counts_Nil: "value_counts argsort [] = []"
  by (simp add: value_counts_def counted_def first_seen_def)

lemma mode_Nil: "mode [] = []"
  by (simp add: mode_def)

text \<open>
  Claim C4, as amended. On a Dataset without rows the number of documents is \<open>0\<close>;
  the script stops before the figures of the summary, and the sentiment bars and the
  grouped counts return without a result, each behind its own check for an empty frame.
  The number of subreddits is \<open>0\<close> and the top subreddits are none when the frame
  has a subreddit column, and both raise \<open>KeyError\<close> when it has not (the frame a
  load of empty sources returns has no column). The dominant label raises \<open>KeyError\<close>
  on every Dataset without rows.
\<close>

theorem aggregations_on_empty:
  assumes "rows df = []"
  shows "total_docs df = 0
       \<and> executive_summary df = Inr None
       \<and> display_sentiment_bars fl argsort df = Inr None
       \<and> grouped_sent df = Inr None
       \<and> (''subreddit'' \<in> set (columns df) \<longrightarrow>
            active_subs df = Inr 0 \<and> sub_counts argsort df = Inr [])
       \<and> (''subreddit'' \<notin> set (columns df) \<longrightarrow>
            active_subs df = Inl (KeyError ''subreddit'')
            \<and> sub_counts argsort df = Inl (KeyError ''subreddit''))
       \<and> (''transformer_label'' \<in> set (columns df) \<longrightarrow> dominant_sent df = Inl (KeyError ''0''))
       \<and> (''transformer_label'' \<notin> set (columns df) \<longrightarrow>
            dominant_sent df = Inl (KeyError ''transformer_label''))"
proof -
  from assms have e: "df_empty df"
    by (simp add: df_empty_def)
  have "total_docs df = 0"
    using assms by (simp add: total_docs_def len_def)
  moreover have "executive_summary df = Inr None"
    using e by (simp add: executive_summary_def)
  moreover have "display_sentiment_bars fl argsort df = Inr None"
    using e by (simp add: display_sentiment_bars_def)
  moreover have "grouped_sent df = Inr None"
    using e by (simp add: grouped_sent_def)
  moreover have "''subreddit'' \<in> set (columns df) \<longrightarrow>
            active_subs df = Inr 0 \<and> sub_counts argsort df = Inr []"
    using assms by (simp add: active_subs_def sub_counts_def getitem_def nunique_def value_counts_Nil)
  moreover have "''subreddit'' \<notin> set (columns df) \<longrightarrow>
            active_subs df = Inl (KeyError ''subreddit'')
            \<and> sub_counts argsort df = Inl (KeyError ''subreddit'')"
    by (simp add: active_subs_def sub_counts_def getitem_def)
  moreover have "''transformer_label'' \<in> set (columns df) \<longrightarrow> dominant_sent df = Inl (KeyError ''0'')"
    using assms by (simp add: dominant_sent_def getitem_def mode_Nil)
  moreover have "''transformer_label'' \<notin> set (columns df) \<longrightarrow>
            dominant_sent df = Inl (KeyError ''transformer_label'')"
    by (simp add: dominant_sent_def getitem_def)
  ultimately show ?thesis
    by (intro conjI)
qed

theorem aggregations_on_empty_counterexample:
  "dominant_sent (DataFrame []) = Inl (KeyError ''transformer_label'')
   \<and> dominant_sent (scenario_df\<lparr>rows := []\<rparr>) = Inl (KeyError ''0'')
   \<and> active_subs (DataFrame []) = Inl (KeyError ''subreddit'')
   \<and> sub_counts stable_argsort (DataFrame []) = Inl (KeyError ''subreddit'')"
  by (simp add: dominant_sent_def active_subs_def sub_counts_def getitem_def DataFrame_def
      first_seen_def scenario_df_def mode_Nil)

theorem aggregations_on_empty_witness:
  "rows (scenario_df\<lparr>rows := []\<rparr>) = []
   \<and> total_docs (scenario_df\<lparr>rows := []\<rparr>) = 0
   \<and> executive_summary (scenario_df\<lparr>rows := []\<rparr>) = Inr None
   \<and> display_sentiment_bars binary64 stable_argsort (scenario_df\<lparr>rows := []\<rparr>) = Inr None
   \<and> grouped_sent (scenario_df\<lparr>rows := []\<rparr>) = Inr None
   \<and> active_subs (scenario_df\<lparr>rows := []\<rparr>) = Inr 0
   \<and> sub_counts stable_argsort (scenario_df\<lparr>rows := []\<rparr>) = Inr []
   \<and> dominant_sent (scenario_df\<lparr>rows := []\<rparr>) = Inl (KeyError ''0'')
   \<and> rows (DataFrame []) = []
   \<and> active_subs (DataFrame []) = Inl (KeyError ''subreddit'')"
proof -
  have r1: "rows (scenario_df\<lparr>rows := []\<rparr>) = []"
    by simp
  have c1: "''subreddit'' \<in> set (columns (scenario_df\<lparr>rows := []\<rparr>))"
    and c2: "''transformer_label'' \<in> set (columns (scenario_df\<lparr>rows := []\<rparr>))"
    by (simp_all add: scenario_df_def)
  have r2: "rows (DataFrame []) = []"
    by simp
  have c3: "''subreddit'' \<notin> set (columns (DataFrame []))"
    by (simp add: DataFrame_Nil)
  from aggregations_on_empty [OF r1, where fl = binary64 and argsort = stable_argsort] c1 c2
    aggregations_on_empty [OF r2, where fl = binary64 and argsort = stable_argsort] c3 r1 r2
  show ?thesis by simp
qed

lemma distinct_first_seen [simp]: "distinct (first_seen xs)"
  by (simp add: first_seen_def)

lemma count_list_zero: "x \<notin> set xs \<Longrightarrow> count_list xs x = 0"
  by (induction xs) auto

lemma distinct_counted: "distinct (map fst (counted col))"
  by (simp add: counted_def Let_def comp_def)

lemma set_counted:
  "set (counted col) =
     (\<lambda>v. (v, count_list (filter (\<lambda>c. c \<noteq> NaN) col) v)) ` set (filter (\<lambda>c. c \<noteq> NaN) col)"
  by (simp add: counted_def Let_def first_seen_def)

lemma sorts_descending_set:
  assumes "sorts_descending counts perm"
  shows "set perm = {..<length counts}"
proof -
  from assms have len: "length perm = length counts" and d: "distinct perm"
    and sub: "set perm \<subseteq> {..<length counts}"
    by (auto simp: sorts_descending_def list_all_iff)
  from d len have "card (set perm) = card {..<length counts}"
    by (simp add: distinct_card)
  with sub show ?thesis
    by (simp add: card_subset_eq)
qed

lemma value_counts_perm:
  assumes "sorts_descending (map snd (counted col)) (argsort (map snd (counted col)))"
  shows "value_counts argsort col = map (\<lambda>i. counted col ! i) (argsort (map snd (counted col)))"
proof -
  from sorts_descending_set [OF assms]
  have "\<forall>i \<in> set (argsort (map snd (counted col))). i < length (counted col)"
    by simp
  then have "filter (\<lambda>i. i < length (counted col)) (argsort (map snd (counted col)))
               = argsort (map snd (counted col))"
    by (simp add: filter_id_conv)
  then show ?thesis
    by (simp add: value_counts_def Let_def)
qed

lemma set_value_counts:
  assumes "sorts_descending (map snd (counted col)) (argsort (map snd (counted col)))"
  shows "set (value_counts argsort col) = set (counted col)"
proof -
  have "set (value_counts argsort col) = (\<lambda>i. counted col ! i) ` {..<length (counted col)}"
    using sorts_descending_set [OF assms] by (simp add: value_counts_perm [where argsort = argsort and col = col, OF assms])
  also have "\<dots> = set (counted col)"
    by (auto simp: set_conv_nth)
  finally show ?thesis .
qed

lemma distinct_value_counts:
  assumes "sorts_descending (map snd (counted col)) (argsort (map snd (counted col)))"
  shows "distinct (map fst (value_counts argsort col))"
proof -
  define cs where "cs = counted col"
  define perm where "perm = argsort (map snd cs)"
  have d: "distinct (map fst cs)"
    unfolding cs_def by (rule distinct_counted)
  from assms have dp: "distinct perm"
    by (simp add: sorts_descending_def perm_def cs_def)
  from sorts_descending_set [OF assms] have sp: "set perm = {..<length cs}"
    by (simp add: perm_def cs_def)
  have "inj_on (\<lambda>i. fst (cs ! i)) (set perm)"
  proof (rule inj_onI)
    fix i j
    assume "i \<in> set perm" and "j \<in> set perm" and e: "fst (cs ! i) = fst (cs ! j)"
    with sp have i: "i < length (map fst cs)" and j: "j < length (map fst cs)"
      by simp_all
    from e i j have "map fst cs ! i = map fst cs ! j"
      by simp
    with nth_eq_iff_index_eq [OF d i j] show "i = j"
      by blast
  qed
  with dp have "distinct (map (\<lambda>i. fst (cs ! i)) perm)"
    by (simp add: distinct_map)
  then show ?thesis
    by (simp add: value_counts_perm [where argsort = argsort and col = col, OF assms] cs_def perm_def comp_def)
qed

lemma sorted_value_counts:
  assumes "sorts_descending (map snd (counted col)) (argsort (map snd (counted col)))"
  shows "sorted_wrt (\<lambda>a b. snd b \<le> snd a) (value_counts argsort col)"
proof -
  define cs where "cs = counted col"
  define perm where "perm = argsort (map snd cs)"
  from assms have s: "sorted_wrt (\<lambda>i j. map snd cs ! j \<le> map snd cs ! i) perm"
    by (simp add: sorts_descending_def perm_def cs_def)
  from sorts_descending_set [OF assms] have sp: "set perm = {..<length cs}"
    by (simp add: perm_def cs_def)
  have "sorted_wrt (\<lambda>i j. snd (cs ! j) \<le> snd (cs ! i)) perm"
    using _ s
  proof (rule sorted_wrt_mono_rel)
    fix i j
    assume "i \<in> set perm" and "j \<in> set perm" and "map snd cs ! j \<le> map snd cs ! i"
    with sp show "snd (cs ! j) \<le> snd (cs ! i)"
      by simp
  qed
  then show ?thesis
    by (simp add: value_counts_perm [where argsort = argsort and col = col, OF assms] cs_def perm_def sorted_wrt_map)
qed

lemma map_of_counted:
  "map_of (map (\<lambda>v. (v, g v)) ks) k = (if k \<in> set ks then Some (g k) else None)"
  by (induction ks) auto

lemma counts_get_value_counts:
  assumes srt: "sorts_descending (map snd (counted col)) (argsort (map snd (counted col)))"
    and v: "v \<noteq> NaN"
  shows "counts_get (value_counts argsort col) v 0 = count_list col v"
proof -
  define vals where "vals = filter (\<lambda>c. c \<noteq> NaN) col"
  have "map_of (value_counts argsort col) = map_of (counted col)"
    using distinct_value_counts [where argsort = argsort and col = col, OF srt] distinct_counted [of col] set_value_counts [where argsort = argsort and col = col, OF srt]
    by (simp add: map_of_inject_set)
  then have "counts_get (value_counts argsort col) v 0 =
          (if v \<in> set vals then count_list vals v else 0)"
    by (simp add: counts_get_def counted_def Let_def vals_def [symmetric] map_of_counted)
  also have "\<dots> = count_list vals v"
    by (simp add: count_list_zero)
  also have "\<dots> = count_list col v"
    using v by (simp add: vals_def count_list_filter)
  finally show ?thesis .
qed

lemma three_counts:
  assumes "a \<noteq> b" and "a \<noteq> c" and "b \<noteq> c"
  shows "count_list xs a + count_list xs b + count_list xs c
           = length (filter (\<lambda>x. x \<in> {a, b, c}) xs)"
  using assms by (induction xs) auto

lemma stable_argsort_sorts: "sorts_descending counts (stable_argsort counts)"
proof -
  define f where "f = (\<lambda>i. - int (counts ! i))"
  have "sorted (map f (sort_key f [0..<length counts]))"
    by (rule sorted_sort_key)
  then have "sorted_wrt (\<lambda>i j. counts ! j \<le> counts ! i) (sort_key f [0..<length counts])"
    by (simp add: sorted_map f_def)
  moreover have "list_all (\<lambda>i. i < length counts) (sort_key f [0..<length counts])"
    by (simp add: list_all_iff)
  ultimately show ?thesis
    by (simp add: sorts_descending_def stable_argsort_def f_def)
qed

lemma round_even_error: "\<bar>of_int (round_even y) - y\<bar> \<le> 1 / 2"
proof -
  have "of_int \<lfloor>y\<rfloor> \<le> y" and "y < of_int \<lfloor>y\<rfloor> + 1"
    by linarith+
  then show ?thesis
    by (auto simp: round_even_def Let_def)
qed

lemma binary64_zero: "binary64 0 = 0"
  by (simp add: binary64_def)

lemma binary64_error:
  assumes "0 < x"
  shows "\<bar>binary64 x - x\<bar> \<le> x / 2 ^ 53"
proof -
  define e where "e = \<lfloor>log 2 \<bar>x\<bar>\<rfloor>"
  define ulp :: real where "ulp = 2 powr of_int (e - 52)"
  have ulp: "0 < ulp"
    by (simp add: ulp_def)
  from assms have "of_int e \<le> log 2 x"
    by (simp add: e_def)
  then have "2 powr of_int e \<le> 2 powr log 2 x"
    by simp
  with assms have lo: "2 powr of_int e \<le> x"
    by simp
  have "ulp = 2 powr of_int e / 2 ^ 52"
    by (simp add: ulp_def powr_diff flip: powr_realpow)
  with lo have half: "ulp / 2 \<le> x / 2 ^ 53"
    by (simp add: field_simps)
  from assms have b: "binary64 x = of_int (round_even (x / ulp)) * ulp"
    by (simp add: binary64_def Let_def ulp_def e_def)
  have "binary64 x - x = (of_int (round_even (x / ulp)) - x / ulp) * ulp"
    using ulp by (simp add: b field_simps)
  then have "\<bar>binary64 x - x\<bar> = \<bar>of_int (round_even (x / ulp)) - x / ulp\<bar> * ulp"
    using ulp by (simp add: abs_mult)
  also have "\<dots> \<le> 1 / 2 * ulp"
    using ulp by (intro mult_right_mono round_even_error) simp
  finally show ?thesis
    using half by simp
qed

lemma binary64_scaled:
  assumes lo: "2 ^ 52 \<le> x * 2 ^ k" and hi: "x * 2 ^ k < 2 ^ 53"
  shows "binary64 x = of_int (round_even (x * 2 ^ k)) / 2 ^ k"
proof -
  have "(0 :: real) < 2 ^ 52"
    by simp
  then have "0 < x * 2 ^ k"
    using lo by (rule less_le_trans)
  then have pos: "0 < x"
    by (simp add: zero_less_mult_iff)
  have p: "(2 :: real) ^ k = 2 powr of_int (int k)"
    by (simp add: powr_realpow)
  have e1: "2 powr of_int (52 - int k) = (2 :: real) ^ 52 / 2 ^ k"
    by (simp add: p powr_diff flip: powr_realpow)
  from lo have "(2 :: real) ^ 52 / 2 ^ k \<le> x"
    by (simp add: divide_le_eq)
  then have l: "2 powr of_int (52 - int k) \<le> x"
    by (simp only: e1)
  have e2: "2 powr of_int (52 - int k + 1) = (2 :: real) ^ 53 / 2 ^ k"
    by (simp add: p powr_diff powr_add flip: powr_realpow)
  from hi have "x < (2 :: real) ^ 53 / 2 ^ k"
    by (simp add: less_divide_eq)
  then have h: "x < 2 powr of_int (52 - int k + 1)"
    by (simp only: e2)
  from pos l h have "\<lfloor>log 2 x\<rfloor> = 52 - int k"
    by (simp add: floor_log_eq_powr_iff)
  with pos have "\<lfloor>log 2 \<bar>x\<bar>\<rfloor> - 52 = - int k"
    by simp
  moreover have "2 powr of_int (- int k) = 1 / (2 :: real) ^ k"
    by (simp add: p powr_minus divide_inverse)
  ultimately show ?thesis
    using pos by (simp add: binary64_def Let_def)
qed

lemma binary64_third: "binary64 (1 / 3) = 6004799503160661 / 2 ^ 54"
proof -
  have "binary64 (1 / 3) = of_int (round_even (1 / 3 * 2 ^ 54)) / 2 ^ 54"
    by (rule binary64_scaled) simp_all
  also have "round_even (1 / 3 * 2 ^ 54) = 6004799503160661"
    by (simp add: round_even_def Let_def)
  finally show ?thesis
    by simp
qed

lemma binary64_third_pct:
  "binary64 (6004799503160661 / 2 ^ 54 * 100) = 4691249611844266 / 2 ^ 47"
proof -
  have "binary64 (6004799503160661 / 2 ^ 54 * 100)
          = of_int (round_even (6004799503160661 / 2 ^ 54 * 100 * 2 ^ 47)) / 2 ^ 47"
    by (rule binary64_scaled) simp_all
  also have "round_even (6004799503160661 / 2 ^ 54 * 100 * 2 ^ 47) = 4691249611844266"
    by (simp add: round_even_def Let_def)
  finally show ?thesis
    by simp
qed

lemma binary64_third_bar: "binary64 (binary64 (1 / 3) * 100) = 4691249611844266 / 2 ^ 47"
  unfolding binary64_third by (rule binary64_third_pct)

text \<open>
  The error of one percentage: the count over the total, rounded, times 100, rounded,
  against the exact percentage.
\<close>

lemma pct_error:
  fixes fl :: "real \<Rightarrow> real"
  assumes zero: "fl 0 = 0"
    and rnd: "\<forall>x. 1 / 2 ^ 54 \<le> x \<and> x \<le> 128 \<longrightarrow> \<bar>fl x - x\<bar> \<le> x / 2 ^ 53"
    and c: "c \<le> T" and T: "0 < T" and big: "T \<le> 2 ^ 53"
  shows "\<bar>fl (fl (real c / real T) * 100) - 100 * real c / real T\<bar>
           \<le> real c / real T * (201 / 2 ^ 53)"
proof (cases "c = 0")
  case True
  then show ?thesis
    by (simp add: zero)
next
  case False
  define a where "a = real c / real T"
  define u :: real where "u = 1 / 2 ^ 53"
  define q where "q = fl a"
  define p where "p = fl (q * 100)"
  have u: "0 < u" "u \<le> 1 / 100" "u / 2 = 1 / 2 ^ 54"
    by (simp_all add: u_def)
  from big have "real T \<le> 2 ^ 53"
    by (metis of_nat_le_iff of_nat_numeral of_nat_power)
  moreover from False have "1 \<le> real c"
    by simp
  ultimately have "1 / 2 ^ 53 \<le> real c / real T"
    using T by (simp add: field_simps)
  then have alo: "u \<le> a"
    by (simp add: a_def u_def)
  from c T have ahi: "a \<le> 1"
    by (simp add: a_def)
  from alo u have a0: "0 < a"
    by linarith
  have "1 / 2 ^ 54 \<le> a \<and> a \<le> 128"
    using alo ahi u by linarith
  with rnd have "\<bar>fl a - a\<bar> \<le> a / 2 ^ 53"
    by blast
  then have qa: "\<bar>q - a\<bar> \<le> a * u"
    by (simp add: q_def u_def)
  then have qhi: "q \<le> a + a * u" and qlo: "a - a * u \<le> q"
    by linarith+
  have "a * u \<le> a * (1 / 100)"
    using u a0 by (intro mult_left_mono) simp_all
  with qlo have qlo': "a * (99 / 100) \<le> q"
    by (simp add: algebra_simps)
  have "u * (99 / 100) \<le> a * (99 / 100)"
    using alo by simp
  with qlo' have "u * (99 / 100) \<le> q"
    by linarith
  then have xlo: "1 / 2 ^ 54 \<le> q * 100"
    using u by linarith
  have "a * u \<le> 1 * (1 / 100)"
    using u a0 ahi by (intro mult_mono) simp_all
  with qhi ahi have xhi: "q * 100 \<le> 128"
    by linarith
  from xlo xhi rnd have "\<bar>fl (q * 100) - q * 100\<bar> \<le> q * 100 / 2 ^ 53"
    by blast
  then have pq: "\<bar>p - q * 100\<bar> \<le> q * 100 * u"
    by (simp add: p_def u_def)
  have "q * u \<le> (a + a * u) * u"
    using qhi u by (intro mult_right_mono) simp_all
  then have "q * 100 * u \<le> 100 * a * u + 100 * a * (u * u)"
    by (simp add: algebra_simps)
  moreover have uu: "u * u \<le> u * (1 / 100)"
    using u by (intro mult_left_mono) simp_all
  have "(100 * a) * (u * u) \<le> (100 * a) * (u * (1 / 100))"
    using a0 by (intro mult_left_mono [OF uu]) simp
  ultimately have "q * 100 * u \<le> 100 * a * u + a * u"
    by (simp add: algebra_simps)
  with pq have "\<bar>p - q * 100\<bar> \<le> 101 * (a * u)"
    by linarith
  moreover from qa have "\<bar>q * 100 - 100 * a\<bar> \<le> 100 * (a * u)"
    by linarith
  ultimately have "\<bar>p - 100 * a\<bar> \<le> 201 * (a * u)"
    by linarith
  then show ?thesis
    by (simp add: p_def q_def a_def u_def)
qed

text \<open>
  Claim C5, as amended. The percentages are binary64 numbers. For a rounding \<open>fl\<close>
  that keeps \<open>0\<close> and has a relative error of at most 2 to the power \<open>-53\<close> between
  2 to the power \<open>-54\<close> and \<open>128\<close> (binary64 rounds to nearest with this error),
  a sort of the counts that sorts, and a Dataset that is not empty, has a label column
  and at most 2 to the power \<open>53\<close> rows (a count is then a binary64 number): each of
  the three percentages is within 2 to the power \<open>-45\<close> of the exact percentage of its
  label, and so is their sum of the exact percentage of the rows whose label is one of
  \<open>positive\<close>, \<open>neutral\<close> and \<open>negative\<close>. The sum is within 2 to the
  power \<open>-45\<close> of \<open>100\<close> when every row has one of the three labels.
\<close>

theorem sentiment_percentages:
  fixes df :: dataframe and fl :: "real \<Rightarrow> real" and argsort :: "nat list \<Rightarrow> nat list"
  defines "labels \<equiv> map (\<lambda>r. cell_of r ''transformer_label'') (rows df)"
  assumes ne: "\<not> df_empty df" and col: "''transformer_label'' \<in> set (columns df)"
    and big: "len df \<le> 2 ^ 53"
    and zero: "fl 0 = 0"
    and rnd: "\<forall>x. 1 / 2 ^ 54 \<le> x \<and> x \<le> 128 \<longrightarrow> \<bar>fl x - x\<bar> \<le> x / 2 ^ 53"
    and srt: "sorts_descending (map snd (counted labels)) (argsort (map snd (counted labels)))"
  shows "\<exists>pos_pct neu_pct neg_pct.
           display_sentiment_bars fl argsort df = Inr (Some (pos_pct, neu_pct, neg_pct))
         \<and> \<bar>pos_pct - 100 * real (count_list labels (Str ''positive'')) / real (len df)\<bar>
             \<le> 1 / 2 ^ 45
         \<and> \<bar>neu_pct - 100 * real (count_list labels (Str ''neutral'')) / real (len df)\<bar>
             \<le> 1 / 2 ^ 45
         \<and> \<bar>neg_pct - 100 * real (count_list labels (Str ''negative'')) / real (len df)\<bar>
             \<le> 1 / 2 ^ 45
         \<and> \<bar>pos_pct + neu_pct + neg_pct -
             100 * real (length (filter (\<lambda>r. cell_of r ''transformer_label''
                                              \<in> {Str ''positive'', Str ''neutral'', Str ''negative''})
                                   (rows df)))
               / real (len df)\<bar> \<le> 1 / 2 ^ 45
         \<and> ((\<forall>r \<in> set (rows df). cell_of r ''transformer_label''
                                    \<in> {Str ''positive'', Str ''neutral'', Str ''negative''})
              \<longrightarrow> \<bar>pos_pct + neu_pct + neg_pct - 100\<bar> \<le> 1 / 2 ^ 45)"
proof -
  define known where "known = {Str ''positive'', Str ''neutral'', Str ''negative''}"
  define T where "T = len df"
  define cp where "cp = count_list labels (Str ''positive'')"
  define cn where "cn = count_list labels (Str ''neutral'')"
  define cg where "cg = count_list labels (Str ''negative'')"
  define K where "K = length (filter (\<lambda>r. cell_of r ''transformer_label'' \<in> known) (rows df))"
  define p where "p = fl (fl (real cp / real T) * 100)"
  define n where "n = fl (fl (real cn / real T) * 100)"
  define g where "g = fl (fl (real cg / real T) * 100)"
  from ne have pos: "0 < T"
    by (simp add: df_empty_def len_def T_def)
  from big have big': "T \<le> 2 ^ 53"
    by (simp add: T_def)
  have lenT: "length labels = T"
    by (simp add: labels_def T_def len_def)
  have gets: "counts_get (value_counts argsort labels) v 0 = count_list labels v" if "v \<noteq> NaN" for v
    using srt that by (rule counts_get_value_counts [where argsort = argsort and col = labels])
  have bars: "display_sentiment_bars fl argsort df = Inr (Some (p, n, g))"
    using ne col
    by (simp add: display_sentiment_bars_def getitem_def Let_def labels_def [symmetric] gets
        p_def n_def g_def cp_def cn_def cg_def T_def)
  have "cp + cn + cg = length (filter (\<lambda>x. x \<in> known) labels)"
    unfolding known_def cp_def cn_def cg_def by (rule three_counts) simp_all
  also have "\<dots> = K"
    by (simp add: labels_def K_def filter_map comp_def)
  finally have cnt: "cp + cn + cg = K" .
  have "K \<le> length (rows df)"
    unfolding K_def by (rule length_filter_le)
  then have KT: "K \<le> T"
    by (simp add: T_def len_def)
  with cnt have le: "cp \<le> T" "cn \<le> T" "cg \<le> T"
    by simp_all
  have ep: "\<bar>p - 100 * real cp / real T\<bar> \<le> real cp / real T * (201 / 2 ^ 53)"
    unfolding p_def using zero rnd le(1) pos big' by (rule pct_error)
  have en: "\<bar>n - 100 * real cn / real T\<bar> \<le> real cn / real T * (201 / 2 ^ 53)"
    unfolding n_def using zero rnd le(2) pos big' by (rule pct_error)
  have eg: "\<bar>g - 100 * real cg / real T\<bar> \<le> real cg / real T * (201 / 2 ^ 53)"
    unfolding g_def using zero rnd le(3) pos big' by (rule pct_error)
  have small: "real c / real T * (201 / 2 ^ 53) \<le> 1 / 2 ^ 45" if "c \<le> T" for c
  proof -
    from that pos have "real c / real T \<le> 1"
      by simp
    then have "real c / real T * (201 / 2 ^ 53) \<le> 1 * (201 / 2 ^ 53)"
      by (intro mult_right_mono) simp_all
    also have "\<dots> \<le> 1 / 2 ^ 45"
      by simp
    finally show ?thesis .
  qed
  have bp: "\<bar>p - 100 * real cp / real T\<bar> \<le> 1 / 2 ^ 45"
    using ep small [OF le(1)] by linarith
  have bn: "\<bar>n - 100 * real cn / real T\<bar> \<le> 1 / 2 ^ 45"
    using en small [OF le(2)] by linarith
  have bg: "\<bar>g - 100 * real cg / real T\<bar> \<le> 1 / 2 ^ 45"
    using eg small [OF le(3)] by linarith
  have split: "100 * real K / real T
                 = 100 * real cp / real T + 100 * real cn / real T + 100 * real cg / real T"
    by (simp add: cnt [symmetric] add_divide_distrib distrib_left)
  have "real cp / real T * (201 / 2 ^ 53) + real cn / real T * (201 / 2 ^ 53)
          + real cg / real T * (201 / 2 ^ 53) = real K / real T * (201 / 2 ^ 53)"
    by (simp add: cnt [symmetric] add_divide_distrib distrib_right)
  with ep en eg split have "\<bar>p + n + g - 100 * real K / real T\<bar>
                              \<le> real K / real T * (201 / 2 ^ 53)"
    by linarith
  with small [OF KT] have total: "\<bar>p + n + g - 100 * real K / real T\<bar> \<le> 1 / 2 ^ 45"
    by linarith
  have all: "\<bar>p + n + g - 100\<bar> \<le> 1 / 2 ^ 45"
    if "\<forall>r \<in> set (rows df). cell_of r ''transformer_label'' \<in> known"
  proof -
    from that have "filter (\<lambda>r. cell_of r ''transformer_label'' \<in> known) (rows df) = rows df"
      by (simp add: filter_id_conv)
    then have "K = T"
      by (simp add: K_def T_def len_def)
    with total pos show ?thesis
      by simp
  qed
  show ?thesis
    using bars bp bn bg total all unfolding known_def K_def cp_def cn_def cg_def T_def by blast
qed

theorem sentiment_percentages_counterexample:
  "\<not> df_empty mixed_label_df
   \<and> display_sentiment_bars binary64 stable_argsort mixed_label_df = Inr (Some (0, 0, 0))
   \<and> \<not> \<bar>(0 :: real) + 0 + 0 - 100\<bar> \<le> 1"
  by (simp add: display_sentiment_bars_def df_empty_def getitem_def mixed_label_df_def
      value_counts_def counted_def stable_argsort_def binary64_def first_seen_def counts_get_def
      cell_of_def len_def)

theorem sentiment_percentages_witness:
  "\<not> df_empty scenario_df \<and> ''transformer_label'' \<in> set (columns scenario_df)
   \<and> len scenario_df \<le> 2 ^ 53
   \<and> display_sentiment_bars binary64 stable_argsort scenario_df
        = Inr (Some (4691249611844266 / 2 ^ 47, 4691249611844266 / 2 ^ 47, 4691249611844266 / 2 ^ 47))
   \<and> 3 * (4691249611844266 / 2 ^ 47) < (100 :: real)
   \<and> (\<exists>pos_pct neu_pct neg_pct.
         display_sentiment_bars binary64 stable_argsort scenario_df
           = Inr (Some (pos_pct, neu_pct, neg_pct))
       \<and> \<bar>pos_pct - 100 / 3\<bar> \<le> 1 / 2 ^ 45
       \<and> \<bar>pos_pct + neu_pct + neg_pct - 100\<bar> \<le> 1 / 2 ^ 45)"
proof -
  have ne: "\<not> df_empty scenario_df" and col: "''transformer_label'' \<in> set (columns scenario_df)"
    and big: "len scenario_df \<le> 2 ^ 53"
    by (simp_all add: df_empty_def scenario_df_def len_def)
  have rnd: "\<forall>x. 1 / 2 ^ 54 \<le> x \<and> x \<le> 128 \<longrightarrow> \<bar>binary64 x - x\<bar> \<le> x / 2 ^ 53"
  proof (intro allI impI)
    fix x :: real
    assume "1 / 2 ^ 54 \<le> x \<and> x \<le> 128"
    then have "0 < x"
      by simp
    then show "\<bar>binary64 x - x\<bar> \<le> x / 2 ^ 53"
      by (rule binary64_error)
  qed
  have srt: "sorts_descending
               (map snd (counted (map (\<lambda>r. cell_of r ''transformer_label'') (rows scenario_df))))
               (stable_argsort
                 (map snd (counted (map (\<lambda>r. cell_of r ''transformer_label'') (rows scenario_df)))))"
    by (rule stable_argsort_sorts)
  have known: "\<forall>r \<in> set (rows scenario_df). cell_of r ''transformer_label''
                  \<in> {Str ''positive'', Str ''neutral'', Str ''negative''}"
    by (simp add: scenario_df_def cell_of_def)
  have third: "100 * real (count_list (map (\<lambda>r. cell_of r ''transformer_label'') (rows scenario_df))
                             (Str ''positive'')) / real (len scenario_df) = 100 / 3"
    by (simp add: scenario_df_def cell_of_def len_def)
  have "display_sentiment_bars binary64 stable_argsort scenario_df
          = Inr (Some (binary64 (binary64 (1 / 3) * 100), binary64 (binary64 (1 / 3) * 100),
                       binary64 (binary64 (1 / 3) * 100)))"
    by (simp add: display_sentiment_bars_def df_empty_def getitem_def scenario_df_def
        value_counts_def counted_def stable_argsort_def first_seen_def counts_get_def
        cell_of_def len_def)
  then have ev: "display_sentiment_bars binary64 stable_argsort scenario_df
        = Inr (Some (4691249611844266 / 2 ^ 47, 4691249611844266 / 2 ^ 47, 4691249611844266 / 2 ^ 47))"
    by (simp only: binary64_third_bar)
  have below: "3 * (4691249611844266 / 2 ^ 47) < (100 :: real)"
    by simp
  from sentiment_percentages [where df = scenario_df and fl = binary64 and argsort = stable_argsort,
      OF ne col big binary64_zero rnd srt]
  obtain p n g where
    bars: "display_sentiment_bars binary64 stable_argsort scenario_df = Inr (Some (p, n, g))"
    and e: "\<bar>p - 100 * real (count_list (map (\<lambda>r. cell_of r ''transformer_label'') (rows scenario_df))
                             (Str ''positive'')) / real (len scenario_df)\<bar> \<le> 1 / 2 ^ 45"
    and a: "(\<forall>r \<in> set (rows scenario_df). cell_of r ''transformer_label''
                  \<in> {Str ''positive'', Str ''neutral'', Str ''negative''})
       \<longrightarrow> \<bar>p + n + g - 100\<bar> \<le> 1 / 2 ^ 45"
    by blast
  from e have e': "\<bar>p - 100 / 3\<bar> \<le> 1 / 2 ^ 45"
    unfolding third .
  from a known have a': "\<bar>p + n + g - 100\<bar> \<le> 1 / 2 ^ 45"
    by blast
  from bars e' a' have
    "\<exists>pos_pct neu_pct neg_pct.
         display_sentiment_bars binary64 stable_argsort scenario_df
           = Inr (Some (pos_pct, neu_pct, neg_pct))
       \<and> \<bar>pos_pct - 100 / 3\<bar> \<le> 1 / 2 ^ 45
       \<and> \<bar>pos_pct + neu_pct + neg_pct - 100\<bar> \<le> 1 / 2 ^ 45"
    by blast
  with ne col big ev below show ?thesis
    by blast
qed

text \<open>
  Claim C6, as amended. For a sort of the counts that sorts, the top subreddits are at
  most seven entries, each a subreddit of the Dataset with the number of its rows, no
  subreddit twice, in descending order of the counts, and no subreddit left out has more
  rows than one listed. Sorting the result again by descending count leaves it
  unchanged. The order of subreddits of equal count is that of the sort, which sees the
  counts only; it is not the order of the names.
\<close>

theorem sub_counts_ordering:
  fixes df :: dataframe and argsort :: "nat list \<Rightarrow> nat list"
  defines "col \<equiv> map (\<lambda>r. cell_of r ''subreddit'') (rows df)"
  defines "subs \<equiv> filter (\<lambda>c. c \<noteq> NaN) col"
  assumes has: "''subreddit'' \<in> set (columns df)"
    and srt: "sorts_descending (map snd (counted col)) (argsort (map snd (counted col)))"
  shows "\<exists>top. sub_counts argsort df = Inr top
       \<and> length top \<le> 7
       \<and> sorted_wrt (\<lambda>a b. snd b \<le> snd a) top
       \<and> distinct (map fst top)
       \<and> (\<forall>(s, n) \<in> set top. s \<in> set subs \<and> n = count_list subs s)
       \<and> (\<forall>s \<in> set subs. s \<notin> fst ` set top \<longrightarrow> (\<forall>(s', n) \<in> set top. count_list subs s \<le> n))
       \<and> sort_key (\<lambda>(s, n). - int n) top = top"
proof -
  define f where "f = (\<lambda>(v :: cell, n :: nat). - int n)"
  define S where "S = value_counts argsort col"
  define top where "top = take 7 S"
  have res: "sub_counts argsort df = Inr top"
    using has by (simp add: sub_counts_def getitem_def col_def top_def S_def)
  have len: "length top \<le> 7"
    by (simp add: top_def)
  have sS: "sorted_wrt (\<lambda>a b. snd b \<le> snd a) S"
    unfolding S_def using srt by (rule sorted_value_counts [where argsort = argsort and col = col])
  then have "sorted_wrt (\<lambda>a b. snd b \<le> snd a) (take 7 S @ drop 7 S)"
    by simp
  then have st: "sorted_wrt (\<lambda>a b. snd b \<le> snd a) top"
    and below: "\<forall>x \<in> set top. \<forall>y \<in> set (drop 7 S). snd y \<le> snd x"
    unfolding sorted_wrt_append top_def by simp_all
  have dS: "distinct (map fst S)"
    unfolding S_def using srt by (rule distinct_value_counts [where argsort = argsort and col = col])
  have "distinct (take 7 (map fst S))"
    using dS by (rule distinct_take)
  then have dt: "distinct (map fst top)"
    by (simp add: top_def take_map)
  have "set S = set (counted col)"
    unfolding S_def using srt by (rule set_value_counts [where argsort = argsort and col = col])
  then have setS: "set S = (\<lambda>v. (v, count_list subs v)) ` set subs"
    by (simp only: set_counted subs_def)
  have sub: "set top \<subseteq> set S"
    unfolding top_def by (rule set_take_subset)
  have el: "\<forall>(s, n) \<in> set top. s \<in> set subs \<and> n = count_list subs s"
    using sub setS by auto
  have rest: "\<forall>s \<in> set subs. s \<notin> fst ` set top \<longrightarrow> (\<forall>(s', n) \<in> set top. count_list subs s \<le> n)"
  proof (intro ballI impI)
    fix s e
    assume s: "s \<in> set subs" and out: "s \<notin> fst ` set top" and e: "e \<in> set top"
    from s have "(s, count_list subs s) \<in> set (take 7 S @ drop 7 S)"
      by (simp add: setS)
    with out have "(s, count_list subs s) \<in> set (drop 7 S)"
      unfolding top_def set_append by force
    with below e have "snd (s, count_list subs s) \<le> snd e"
      by blast
    then show "case e of (s', n) \<Rightarrow> count_list subs s \<le> n"
      by (simp add: case_prod_beta)
  qed
  from st have "sorted (map f top)"
    by (simp add: sorted_map f_def case_prod_beta)
  then have idem: "sort_key f top = top"
    by (rule sort_key_id_if_sorted)
  show ?thesis
    apply (rule exI [of _ top])
    apply (intro conjI)
          apply (rule res)
         apply (rule len)
        apply (rule st)
       apply (rule dt)
      apply (rule el)
     apply (rule rest)
    apply (rule idem [unfolded f_def])
    done
qed

theorem sub_counts_ordering_counterexample:
  "''a'' < ''b''
   \<and> sub_counts stable_argsort tied_df = Inr [(Str ''b'', 1), (Str ''a'', 1)]
   \<and> \<not> (\<exists>argsort. sub_counts argsort tied_df = Inr [(Str ''a'', 1), (Str ''b'', 1)]
                 \<and> sub_counts argsort swapped_df = Inr [(Str ''a'', 1), (Str ''b'', 1)])"
proof -
  have ord: "''a'' < ''b''"
    by simp
  have ev: "sub_counts stable_argsort tied_df = Inr [(Str ''b'', 1), (Str ''a'', 1)]"
    by (simp add: sub_counts_def getitem_def tied_df_def value_counts_def counted_def
        stable_argsort_def first_seen_def cell_of_def)
  have no: "\<not> (sub_counts argsort tied_df = Inr [(Str ''a'', 1), (Str ''b'', 1)]
              \<and> sub_counts argsort swapped_df = Inr [(Str ''a'', 1), (Str ''b'', 1)])" for argsort
  proof
    define p where "p = filter (\<lambda>i. i < Suc (Suc 0)) (argsort [Suc 0, Suc 0])"
    assume both: "sub_counts argsort tied_df = Inr [(Str ''a'', 1), (Str ''b'', 1)]
              \<and> sub_counts argsort swapped_df = Inr [(Str ''a'', 1), (Str ''b'', 1)]"
    have t: "sub_counts argsort tied_df
               = Inr (take 7 (map (\<lambda>i. [(Str ''b'', 1 :: nat), (Str ''a'', 1)] ! i) p))"
      by (simp add: sub_counts_def getitem_def tied_df_def value_counts_def counted_def
          first_seen_def cell_of_def p_def)
    have s: "sub_counts argsort swapped_df
               = Inr (take 7 (map (\<lambda>i. [(Str ''a'', 1 :: nat), (Str ''b'', 1)] ! i) p))"
      by (simp add: sub_counts_def getitem_def swapped_df_def value_counts_def counted_def
          first_seen_def cell_of_def p_def)
    show False
    proof (cases p)
      case Nil
      with both t show False
        by simp
    next
      case (Cons i q)
      then have "i \<in> set p"
        by simp
      then have "i < Suc (Suc 0)"
        by (simp add: p_def)
      then have "i = 0 \<or> i = 1"
        by auto
      with both t s Cons show False
        by auto
    qed
  qed
  from ord ev no show ?thesis
    by blast
qed

theorem sub_counts_ordering_witness:
  "''subreddit'' \<in> set (columns scenario_df)
   \<and> sub_counts stable_argsort scenario_df = Inr [(Str ''a'', 2), (Str ''b'', 1)]
   \<and> (\<exists>top. sub_counts stable_argsort scenario_df = Inr top \<and> length top \<le> 7
           \<and> sorted_wrt (\<lambda>a b. snd b \<le> snd a) top
           \<and> sort_key (\<lambda>(s, n). - int n) top = top)"
proof -
  have has: "''subreddit'' \<in> set (columns scenario_df)"
    by (simp add: scenario_df_def)
  have srt: "sorts_descending
               (map snd (counted (map (\<lambda>r. cell_of r ''subreddit'') (rows scenario_df))))
               (stable_argsort
                 (map snd (counted (map (\<lambda>r. cell_of r ''subreddit'') (rows scenario_df)))))"
    by (simp add: sorts_descending_def stable_argsort_def counted_def first_seen_def
        scenario_df_def cell_of_def)
  have ev: "sub_counts stable_argsort scenario_df = Inr [(Str ''a'', 2), (Str ''b'', 1)]"
    by (simp add: sub_counts_def getitem_def scenario_df_def value_counts_def counted_def
        stable_argsort_def first_seen_def cell_of_def)
  from sub_counts_ordering [where df = scenario_df and argsort = stable_argsort, OF has srt]
  obtain top where
    "sub_counts stable_argsort scenario_df = Inr top" "length top \<le> 7"
    "sorted_wrt (\<lambda>a b. snd b \<le> snd a) top" "sort_key (\<lambda>(s, n). - int n) top = top"
    by blast
  with has ev show ?thesis
    by blast
qed

section \<open>Properties of the cache\<close>

lemma queries_run_load_data:
  "queries (snd (run_load_data parse_time parse_number unicode_lower clock now posts comments c)) = queries c + 2"
  by (simp add: run_load_data_def split: sum.splits)

lemma fst_run_load_data:
  "fst (run_load_data parse_time parse_number unicode_lower clock now posts comments c)
     = load_data parse_time parse_number unicode_lower (clock now) posts comments"
  by (simp add: run_load_data_def split: sum.splits)

lemma cached_load_data_miss:
  assumes "\<not> fresh now c"
  shows "cached_load_data parse_time parse_number unicode_lower clock now posts comments c
           = run_load_data parse_time parse_number unicode_lower clock now posts comments c"
  using assms by (auto simp: cached_load_data_def fresh_def split: option.splits)

lemma slot_after_load:
  assumes "cached_load_data parse_time parse_number unicode_lower clock t0 posts0 comments0 c0 = (Inr v, c)"
      and "\<not> fresh t0 c0"
  shows "slot c = Some (v, t0)"
  using assms
  by (auto simp: cached_load_data_miss run_load_data_def split: sum.splits)

text \<open>
  Claim C8. After a load that ran at the time \<open>t0\<close> and returned a result, a call
  less than 300 seconds after \<open>t0\<close> returns that result and leaves the cache as it
  is, the count of queries included, whatever the store holds by then. A call 300
  seconds after \<open>t0\<close> or later, and a call at any time after the invalidation, runs
  \<open>load_data\<close> on what the store holds then and sends the two queries.
\<close>

theorem cached_load_data_window:
  assumes first: "cached_load_data parse_time parse_number unicode_lower clock t0 posts0 comments0 c0 = (Inr v, c)"
      and miss: "\<not> fresh t0 c0"
  shows "(t1 < t0 + 300 \<longrightarrow>
            cached_load_data parse_time parse_number unicode_lower clock t1 posts comments c = (Inr v, c))
       \<and> (t0 + 300 \<le> t1 \<longrightarrow>
            fst (cached_load_data parse_time parse_number unicode_lower clock t1 posts comments c)
              = load_data parse_time parse_number unicode_lower (clock t1) posts comments
          \<and> queries (snd (cached_load_data parse_time parse_number unicode_lower clock t1 posts comments c))
              = queries c + 2)
       \<and> fst (cached_load_data parse_time parse_number unicode_lower clock t1 posts comments (cache_clear c))
              = load_data parse_time parse_number unicode_lower (clock t1) posts comments
       \<and> queries (snd (cached_load_data parse_time parse_number unicode_lower clock t1 posts comments (cache_clear c)))
              = queries c + 2"
proof -
  from first miss have s: "slot c = Some (v, t0)"
    by (rule slot_after_load)
  have hit: "cached_load_data parse_time parse_number unicode_lower clock t1 posts comments c = (Inr v, c)"
    if "t1 < t0 + 300"
    using that s by (simp add: cached_load_data_def ttl_def)
  have stale: "cached_load_data parse_time parse_number unicode_lower clock t1 posts comments c
                 = run_load_data parse_time parse_number unicode_lower clock t1 posts comments c"
    if "t0 + 300 \<le> t1"
    using that s by (simp add: cached_load_data_miss fresh_def ttl_def)
  have cleared: "cached_load_data parse_time parse_number unicode_lower clock t1 posts comments (cache_clear c)
                 = run_load_data parse_time parse_number unicode_lower clock t1 posts comments (cache_clear c)"
    by (simp add: cached_load_data_miss fresh_def cache_clear_def)
  have q: "queries (cache_clear c) = queries c"
    by (simp add: cache_clear_def)
  show ?thesis
    using hit stale
    by (simp add: cleared fst_run_load_data queries_run_load_data q)
qed

lemma load_data_Nil:
  "load_data parse_time parse_number unicode_lower now [] [] = Inr (DataFrame [], None)"
  by (simp add: load_data_def df_posts_def df_comments_def DataFrame_Nil df_empty_def)

theorem cached_load_data_window_witness:
  "\<not> fresh 1000 empty_cache
   \<and> (\<exists>v c. cached_load_data example_parse_time example_parse_number example_unicode_lower example_clock 1000
               example_posts example_comments empty_cache = (Inr v, c)
         \<and> queries c = 2
         \<and> cached_load_data example_parse_time example_parse_number example_unicode_lower example_clock 1299 [] [] c
             = (Inr v, c)
         \<and> fst (cached_load_data example_parse_time example_parse_number example_unicode_lower example_clock 1300 [] [] c)
             = Inr (DataFrame [], None)
         \<and> queries (snd (cached_load_data example_parse_time example_parse_number example_unicode_lower example_clock
                            1300 [] [] c)) = 4
         \<and> fst (cached_load_data example_parse_time example_parse_number example_unicode_lower example_clock 1001 [] []
                   (cache_clear c)) = Inr (DataFrame [], None)
         \<and> queries (snd (cached_load_data example_parse_time example_parse_number example_unicode_lower example_clock
                            1001 [] [] (cache_clear c))) = 4)"
proof -
  have miss: "\<not> fresh 1000 empty_cache"
    by (simp add: fresh_def empty_cache_def)
  obtain v where v: "load_data example_parse_time example_parse_number example_unicode_lower (example_clock 1000)
                       example_posts example_comments = Inr v"
    by (simp add: example_clock_def example_load)
  define c where "c = \<lparr>slot = Some (v, 1000 :: nat), queries = 2\<rparr>"
  have first: "cached_load_data example_parse_time example_parse_number example_unicode_lower example_clock 1000
               example_posts example_comments empty_cache = (Inr v, c)"
    by (simp add: cached_load_data_def run_load_data_def empty_cache_def v c_def)
  have q: "queries c = 2"
    by (simp add: c_def)
  note w = cached_load_data_window [OF first miss, of _ "[]" "[]"]
  from w [of 1299]
  have hit: "cached_load_data example_parse_time example_parse_number example_unicode_lower example_clock 1299 [] [] c
             = (Inr v, c)"
    by simp
  from w [of 1300]
  have stale: "fst (cached_load_data example_parse_time example_parse_number example_unicode_lower example_clock 1300 [] [] c)
             = Inr (DataFrame [], None)"
         "queries (snd (cached_load_data example_parse_time example_parse_number example_unicode_lower example_clock
                            1300 [] [] c)) = 4"
    by (simp_all add: load_data_Nil q)
  from w [of 1001]
  have cleared: "fst (cached_load_data example_parse_time example_parse_number example_unicode_lower example_clock 1001 [] []
                   (cache_clear c)) = Inr (DataFrame [], None)"
         "queries (snd (cached_load_data example_parse_time example_parse_number example_unicode_lower example_clock
                            1001 [] [] (cache_clear c))) = 4"
    by (simp_all add: load_data_Nil q)
  show ?thesis
    apply (intro conjI)
     apply (rule miss)
    apply (rule exI [of _ v])
    apply (rule exI [of _ c])
    apply (intro conjI)
          apply (rule first)
         apply (rule q)
        apply (rule hit)
       apply (rule stale(1))
      apply (rule stale(2))
     apply (rule cleared(1))
    apply (rule cleared(2))
    done
qed

end
